theory Spec2Isabelle
  imports Main "HOL-Library.Word" "HOL-Library.Char_ord" "HOL-Library.List_Lexorder"
    "HOL-Library.AList" "HOL-Library.Multiset" "HOL-Library.Monad_Syntax"
begin

unbundle bit_operations_syntax

section \<open>Bytes and fixed-width integers\<close>

text \<open>
  A Go \<open>[]byte\<close> and a Go \<open>string\<close> are sequences of bytes; \<open>char\<close> is the 8-bit
  byte, so both are \<open>string\<close>. \<open>bytes.Compare\<close> and the comparison of Go strings are the
  lexicographic order on unsigned bytes, which is the order of \<open>string\<close> here. A nil slice
  is the empty list: the code only ever takes the length of a slice it tests for nil.
\<close>

type_synonym bytes = string

text \<open>\<open>binary.LittleEndian.PutUint32(buf, uint32(n))\<close>: the low four bytes of \<open>n\<close>.\<close>

definition le32 :: "nat \<Rightarrow> bytes" where
  "le32 n = [char_of n, char_of (n div 256), char_of (n div 65536), char_of (n div 16777216)]"

definition le64 :: "nat \<Rightarrow> bytes" where
  "le64 n = le32 n @ le32 (n div 4294967296)"

text \<open>The value of a byte sequence read as a little-endian number.\<close>

fun le_val :: "bytes \<Rightarrow> nat" where
  "le_val [] = 0"
| "le_val (c # cs) = of_char c + 256 * le_val cs"

text \<open>
  \<open>binary.LittleEndian.Uint32(b)\<close> and \<open>Uint64(b)\<close> read the first 4 (8) bytes of \<open>b\<close>
  and panic when \<open>b\<close> is shorter.
\<close>

definition Uint32 :: "bytes \<Rightarrow> nat option" where
  "Uint32 b = (if length b < 4 then None else Some (le_val (take 4 b)))"

definition Uint64 :: "bytes \<Rightarrow> nat option" where
  "Uint64 b = (if length b < 8 then None else Some (le_val (take 8 b)))"

text \<open>The conversions \<open>uint64(t)\<close> of an \<open>int64\<close> and \<open>int64(u)\<close> of a \<open>uint64\<close>.\<close>

definition uint64 :: "int \<Rightarrow> nat" where
  "uint64 t = nat (t mod 18446744073709551616)"

definition int64 :: "nat \<Rightarrow> int" where
  "int64 u = (if u mod 18446744073709551616 < 9223372036854775808
              then int (u mod 18446744073709551616)
              else int (u mod 18446744073709551616) - 18446744073709551616)"

section \<open>CRC32C\<close>

text \<open>
  \<open>crc32.Checksum(data, crc32.MakeTable(crc32.Castagnoli))\<close> of the Go library, as its
  table-driven reference implementation computes it. The register is a \<open>uint32\<close> held as
  a natural number: the loop only shifts right and XORs values below \<open>2^32\<close>, so nothing
  wraps, and the complement \<open>^crc\<close> is the XOR with \<open>0xFFFFFFFF\<close>.
\<close>

definition Castagnoli :: nat where
  "Castagnoli = 0x82F63B78"

definition crc_bit :: "nat \<Rightarrow> nat" where
  "crc_bit c = (if c mod 2 = 1 then (c div 2) XOR Castagnoli else c div 2)"

definition crc_table :: "nat \<Rightarrow> nat" where
  "crc_table i = (crc_bit ^^ 8) i"

fun simpleUpdate :: "nat \<Rightarrow> bytes \<Rightarrow> nat" where
  "simpleUpdate c [] = c"
| "simpleUpdate c (v # p) =
     simpleUpdate (crc_table ((c mod 256) XOR of_char v) XOR (c div 256)) p"

definition crc32c :: "bytes \<Rightarrow> nat" where
  "crc32c d = simpleUpdate 0xFFFFFFFF d XOR 0xFFFFFFFF"

section \<open>Errors\<close>

text \<open>
  The code returns errors built from message strings; each constructor stands for one
  message. \<open>GoPanic\<close> is a run-time panic (an index or a slice bound out of range).
\<close>

datatype error =
    EngineClosed            \<comment> \<open>"engine is closed"\<close>
  | KeyNotFound             \<comment> \<open>"key not found"\<close>
  | WALHeaderRead           \<comment> \<open>"failed to read WAL entry header"\<close>
  | WALDataRead             \<comment> \<open>"failed to read WAL entry data"\<close>
  | WALCorrupted            \<comment> \<open>"WAL entry corrupted: CRC mismatch"\<close>
  | WALApplyFailed          \<comment> \<open>"failed to apply WAL entry"\<close>
  | BlockOpenFailed         \<comment> \<open>"failed to open block file"\<close>
  | BlockDecodeFailed       \<comment> \<open>"failed to decode block"\<close>
  | GoPanic

section \<open>Write-ahead log\<close>

record WALEntry =
  Timestamp :: int
  OpType :: nat
  Key :: bytes
  Value :: bytes

definition OpTypePut :: nat where
  "OpTypePut = 1"

definition OpTypeDelete :: nat where
  "OpTypeDelete = 2"

text \<open>
  The WAL directory is given by its files named \<open><timestamp>.wal\<close>, each as the timestamp
  its name parses to and its content, in the order \<open>os.ReadDir\<close> lists them; the code
  skips every other directory entry. \<open>file_wal\<close> is the name of the file open for
  appending. Calls to the filesystem are taken to succeed, and every write reaches the
  file at once: \<open>append\<close> flushes and syncs before it returns.
\<close>

record WAL =
  walDir :: "(int \<times> bytes) list"
  file_wal :: int
  size_wal :: int
  maxSize :: int

text \<open>
  \<open>openCurrentFile\<close>: the file with the largest timestamp above 0 is opened for
  appending; when there is none, a file named after the clock is created.
\<close>

definition latest_file :: "(int \<times> bytes) list \<Rightarrow> int option" where
  "latest_file files =
     snd (fold (\<lambda>f (latestTime, latestFile).
                  if fst f > latestTime then (fst f, Some (fst f)) else (latestTime, latestFile))
            files (0, None))"

definition openCurrentFile :: "WAL \<Rightarrow> int \<Rightarrow> WAL" where
  "openCurrentFile w now =
     (case latest_file (walDir w) of
        None \<Rightarrow>
          w\<lparr>walDir := (if now \<in> fst ` set (walDir w) then walDir w else walDir w @ [(now, [])]),
            file_wal := now, size_wal := 0\<rparr>
      | Some f \<Rightarrow>
          w\<lparr>file_wal := f,
            size_wal := int (length (case map_of (walDir w) f of None \<Rightarrow> [] | Some c \<Rightarrow> c))\<rparr>)"

definition NewWAL :: "(int \<times> bytes) list \<Rightarrow> int \<Rightarrow> WAL" where
  "NewWAL dir now =
     openCurrentFile \<lparr>walDir = dir, file_wal = 0, size_wal = 0, maxSize = 64 * 1024 * 1024\<rparr> now"

definition rotate_wal :: "WAL \<Rightarrow> int \<Rightarrow> WAL" where
  "rotate_wal w now = openCurrentFile w now"

text \<open>The serialized entry after the two header fields: what \<open>append\<close> puts at \<open>buf[8:]\<close>.\<close>

definition entry_payload :: "int \<Rightarrow> nat \<Rightarrow> bytes \<Rightarrow> bytes \<Rightarrow> bytes" where
  "entry_payload ts opType key val =
     le64 (uint64 ts) @ [char_of opType] @ le32 (length key) @ key @
     (if opType = OpTypePut then le32 (length val) @ val else le32 0)"

text \<open>
  \<open>append\<close>: the buffer is \<open>[crc][entrySize][payload]\<close>, and the checksum is taken over
  \<open>buf[4:offset]\<close>, that is over the entry-size field followed by the payload.
\<close>

definition append_buf :: "int \<Rightarrow> nat \<Rightarrow> bytes \<Rightarrow> bytes \<Rightarrow> bytes" where
  "append_buf ts opType key val =
     (let entrySize = 8 + 1 + 4 + length key + 4 + length val;
          body = le32 entrySize @ entry_payload ts opType key val
      in le32 (crc32c body) @ body)"

definition write_file :: "int \<Rightarrow> bytes \<Rightarrow> (int \<times> bytes) list \<Rightarrow> (int \<times> bytes) list" where
  "write_file f buf files = map (\<lambda>(n, c). if n = f then (n, c @ buf) else (n, c)) files"

definition append_wal :: "WAL \<Rightarrow> int \<Rightarrow> nat \<Rightarrow> bytes \<Rightarrow> bytes \<Rightarrow> WAL" where
  "append_wal w now opType key val =
     (let w1 = (if size_wal w \<ge> maxSize w then rotate_wal w now else w);
          buf = append_buf now opType key val
      in w1\<lparr>walDir := write_file (file_wal w1) buf (walDir w1),
             size_wal := size_wal w1 + int (length buf)\<rparr>)"

definition AppendPut :: "WAL \<Rightarrow> int \<Rightarrow> bytes \<Rightarrow> bytes \<Rightarrow> WAL" where
  "AppendPut w now key val = append_wal w now OpTypePut key val"

definition AppendDelete :: "WAL \<Rightarrow> int \<Rightarrow> bytes \<Rightarrow> WAL" where
  "AppendDelete w now key = append_wal w now OpTypeDelete key []"

text \<open>
  Parsing one entry inside \<open>replayFileFrom\<close>, after its checksum was accepted. The
  timestamp is read first and an entry at or before \<open>fromTimestamp\<close> is skipped without
  looking at the rest. Every read past the end of \<open>data\<close> is a panic.
\<close>

datatype parsed = Panicked | Skipped | Parsed WALEntry

definition parse_entry :: "bytes \<Rightarrow> int \<Rightarrow> parsed" where
  "parse_entry data fromTimestamp =
     (case Uint64 data of
        None \<Rightarrow> Panicked
      | Some t \<Rightarrow>
          if int64 t \<le> fromTimestamp then Skipped
          else if length data \<le> 8 then Panicked
          else (case Uint32 (drop 9 data) of
                  None \<Rightarrow> Panicked
                | Some keyLen \<Rightarrow>
                    if length data < 13 + keyLen then Panicked
                    else (case Uint32 (drop (13 + keyLen) data) of
                            None \<Rightarrow> Panicked
                          | Some valueLen \<Rightarrow>
                              if valueLen > 0 \<and> length data < 17 + keyLen + valueLen
                              then Panicked
                              else Parsed \<lparr>Timestamp = int64 t,
                                          OpType = of_char (data ! 8),
                                          Key = take keyLen (drop 13 data),
                                          Value = take valueLen (drop (17 + keyLen) data)\<rparr>)))"

text \<open>
  \<open>replayFileFrom\<close> on the content \<open>r\<close> of one file. \<open>io.ReadFull\<close> reports \<open>io.EOF\<close>
  only when it read no byte at all; the loop ends on it for the header and fails on any
  other short read. The callback works on a state \<open>'s\<close>; the result is the error, if
  any, and the state the callback calls made so far have left.
\<close>

function replayFileFrom ::
  "bytes \<Rightarrow> int \<Rightarrow> (WALEntry \<Rightarrow> 's \<Rightarrow> error option \<times> 's) \<Rightarrow> 's \<Rightarrow> error option \<times> 's" where
  "replayFileFrom r fromTimestamp callback st =
     (if r = [] then (None, st)
      else if length r < 8 then (Some WALHeaderRead, st)
      else if length r - 8 < le_val (take 4 (drop 4 r)) then (Some WALDataRead, st)
      else if crc32c (take (le_val (take 4 (drop 4 r))) (drop 8 r)) \<noteq> le_val (take 4 r)
        then (Some WALCorrupted, st)
      else (case parse_entry (take (le_val (take 4 (drop 4 r))) (drop 8 r)) fromTimestamp of
              Panicked \<Rightarrow> (Some GoPanic, st)
            | Skipped \<Rightarrow>
                replayFileFrom (drop (8 + le_val (take 4 (drop 4 r))) r) fromTimestamp callback st
            | Parsed entry \<Rightarrow>
                (case callback entry st of
                   (Some err, st') \<Rightarrow> (Some WALApplyFailed, st')
                 | (None, st') \<Rightarrow>
                     replayFileFrom (drop (8 + le_val (take 4 (drop 4 r))) r)
                       fromTimestamp callback st')))"
  by pat_completeness auto
termination
  by (relation "measure (\<lambda>(r, _, _, _). length r)") auto

declare replayFileFrom.simps [simp del]

text \<open>
  The loop of \<open>ReplayFrom\<close> over the selected files: the first error ends the replay.
\<close>

fun replay_files ::
  "(int \<times> bytes) list \<Rightarrow> int \<Rightarrow> (WALEntry \<Rightarrow> 's \<Rightarrow> error option \<times> 's) \<Rightarrow> 's
     \<Rightarrow> error option \<times> 's" where
  "replay_files [] fromTimestamp callback st = (None, st)"
| "replay_files (f # fs) fromTimestamp callback st =
     (case replayFileFrom (snd f) fromTimestamp callback st of
        (Some err, st') \<Rightarrow> (Some err, st')
      | (None, st') \<Rightarrow> replay_files fs fromTimestamp callback st')"

text \<open>The exchange sort of \<open>ReplayFrom\<close>, by file timestamp, oldest first.\<close>

definition sort_walFiles :: "(int \<times> bytes) list \<Rightarrow> (int \<times> bytes) list" where
  "sort_walFiles walFiles =
     fold (\<lambda>i xs.
             fold (\<lambda>j ys. if fst (ys ! i) > fst (ys ! j) then ys[i := ys ! j, j := ys ! i] else ys)
               [Suc i ..< length walFiles] xs)
       [0 ..< length walFiles] walFiles"

text \<open>
  \<open>ReplayFrom\<close>: files whose name timestamp is below \<open>fromTimestamp\<close> are left out, the
  others are replayed oldest first.
\<close>

definition ReplayFrom ::
  "WAL \<Rightarrow> int \<Rightarrow> (WALEntry \<Rightarrow> 's \<Rightarrow> error option \<times> 's) \<Rightarrow> 's \<Rightarrow> error option \<times> 's" where
  "ReplayFrom w fromTimestamp callback st =
     replay_files (sort_walFiles (filter (\<lambda>f. \<not> fst f < fromTimestamp) (walDir w)))
       fromTimestamp callback st"

definition Replay :: "WAL \<Rightarrow> (WALEntry \<Rightarrow> 's \<Rightarrow> error option \<times> 's) \<Rightarrow> 's \<Rightarrow> error option \<times> 's" where
  "Replay w callback st = ReplayFrom w 0 callback st"

text \<open>
  A callback for the replay that keeps the entries it is given, in order, and never
  fails: what a replay hands to it is what the replay applied.
\<close>

definition collect :: "WALEntry \<Rightarrow> WALEntry list \<Rightarrow> error option \<times> WALEntry list" where
  "collect entry st = (None, st @ [entry])"

section \<open>SHA-256\<close>

text \<open>
  \<open>sha256.Sum256\<close> of the Go library, as FIPS 180-4 defines it: the message is padded
  to a multiple of 64 bytes and each 64-byte block is compressed into a state of eight
  32-bit words; the digest is the 32 bytes of the final state, big-endian.
\<close>

definition K256 :: "32 word list" where
  "K256 =
     [1116352408, 1899447441, 3049323471, 3921009573, 961987163, 1508970993,
      2453635748, 2870763221, 3624381080, 310598401, 607225278, 1426881987,
      1925078388, 2162078206, 2614888103, 3248222580, 3835390401, 4022224774,
      264347078, 604807628, 770255983, 1249150122, 1555081692, 1996064986,
      2554220882, 2821834349, 2952996808, 3210313671, 3336571891, 3584528711,
      113926993, 338241895, 666307205, 773529912, 1294757372, 1396182291,
      1695183700, 1986661051, 2177026350, 2456956037, 2730485921, 2820302411,
      3259730800, 3345764771, 3516065817, 3600352804, 4094571909, 275423344,
      430227734, 506948616, 659060556, 883997877, 958139571, 1322822218,
      1537002063, 1747873779, 1955562222, 2024104815, 2227730452, 2361852424,
      2428436474, 2756734187, 3204031479, 3329325298]"

type_synonym sha_state =
  "32 word \<times> 32 word \<times> 32 word \<times> 32 word \<times> 32 word \<times> 32 word \<times> 32 word \<times> 32 word"

definition sha_init :: sha_state where
  "sha_init =
     (1779033703, 3144134277, 1013904242, 2773480762,
      1359893119, 2600822924, 528734635, 1541459225)"

definition Ch :: "32 word \<Rightarrow> 32 word \<Rightarrow> 32 word \<Rightarrow> 32 word" where
  "Ch x y z = (x AND y) XOR (NOT x AND z)"

definition Maj :: "32 word \<Rightarrow> 32 word \<Rightarrow> 32 word \<Rightarrow> 32 word" where
  "Maj x y z = (x AND y) XOR (x AND z) XOR (y AND z)"

definition bsig0 :: "32 word \<Rightarrow> 32 word" where
  "bsig0 x = word_rotr 2 x XOR word_rotr 13 x XOR word_rotr 22 x"

definition bsig1 :: "32 word \<Rightarrow> 32 word" where
  "bsig1 x = word_rotr 6 x XOR word_rotr 11 x XOR word_rotr 25 x"

definition ssig0 :: "32 word \<Rightarrow> 32 word" where
  "ssig0 x = word_rotr 7 x XOR word_rotr 18 x XOR drop_bit 3 x"

definition ssig1 :: "32 word \<Rightarrow> 32 word" where
  "ssig1 x = word_rotr 17 x XOR word_rotr 19 x XOR drop_bit 10 x"

definition be32_word :: "bytes \<Rightarrow> 32 word" where
  "be32_word b = of_nat (le_val (rev (take 4 b)))"

definition word_be32 :: "32 word \<Rightarrow> bytes" where
  "word_be32 w = rev (le32 (unat w))"

definition sha_pad :: "bytes \<Rightarrow> bytes" where
  "sha_pad m =
     m @ [CHR 0x80] @ replicate ((119 - length m mod 64) mod 64) (CHR 0x00) @
     rev (le64 (8 * length m))"

definition sha_schedule :: "bytes \<Rightarrow> 32 word list" where
  "sha_schedule blk =
     fold (\<lambda>t w. w @ [ssig1 (w ! (t - 2)) + w ! (t - 7) + ssig0 (w ! (t - 15)) + w ! (t - 16)])
       [16 ..< 64] (map (\<lambda>i. be32_word (drop (4 * i) blk)) [0 ..< 16])"

definition sha_round :: "32 word list \<Rightarrow> nat \<Rightarrow> sha_state \<Rightarrow> sha_state" where
  "sha_round w t = (\<lambda>(a, b, c, d, e, f, g, h).
     (h + bsig1 e + Ch e f g + K256 ! t + w ! t + (bsig0 a + Maj a b c),
      a, b, c,
      d + (h + bsig1 e + Ch e f g + K256 ! t + w ! t),
      e, f, g))"

definition sha_add :: "sha_state \<Rightarrow> sha_state \<Rightarrow> sha_state" where
  "sha_add = (\<lambda>(a, b, c, d, e, f, g, h) (a', b', c', d', e', f', g', h').
     (a + a', b + b', c + c', d + d', e + e', f + f', g + g', h + h'))"

definition sha_compress :: "sha_state \<Rightarrow> bytes \<Rightarrow> sha_state" where
  "sha_compress s blk = sha_add s (fold (sha_round (sha_schedule blk)) [0 ..< 64] s)"

definition sha_digest :: "sha_state \<Rightarrow> bytes" where
  "sha_digest = (\<lambda>(a, b, c, d, e, f, g, h).
     word_be32 a @ word_be32 b @ word_be32 c @ word_be32 d @
     word_be32 e @ word_be32 f @ word_be32 g @ word_be32 h)"

definition Sum256 :: "bytes \<Rightarrow> bytes" where
  "Sum256 m =
     sha_digest
       (fold (\<lambda>i s. sha_compress s (take 64 (drop (64 * i) (sha_pad m))))
          [0 ..< length (sha_pad m) div 64] sha_init)"

section \<open>Formatting\<close>

text \<open>\<open>%d\<close> of \<open>fmt.Sprintf\<close> and \<open>hex.EncodeToString\<close>.\<close>

definition digit_char :: "nat \<Rightarrow> char" where
  "digit_char d = ''0123456789abcdef'' ! d"

function decimal :: "nat \<Rightarrow> string" where
  "decimal n = (if n < 10 then [digit_char n] else decimal (n div 10) @ [digit_char (n mod 10)])"
  by pat_completeness auto
termination
  by (relation "measure id") auto

declare decimal.simps [simp del]

definition fmt_d :: "int \<Rightarrow> string" where
  "fmt_d i = (if i < 0 then CHR ''-'' # decimal (nat (- i)) else decimal (nat i))"

definition hex_EncodeToString :: "bytes \<Rightarrow> string" where
  "hex_EncodeToString b =
     concat (map (\<lambda>c. [digit_char (of_char c div 16), digit_char (of_char c mod 16)]) b)"

section \<open>Blocks\<close>

record Header =
  DataType :: nat
  CompressionType :: nat
  Count :: nat
  RawSizeBytes :: nat
  StoredSizeBytes :: nat
  CreatedAt :: int
  BlockID :: bytes

record Stats =
  Min_num :: nat
  Max_num :: nat
  MinKey :: bytes
  MaxKey :: bytes

text \<open>
  The scratch \<open>buffer\<close> of a block is left out: \<open>Finalize\<close> copies it into \<open>Data\<close>
  and \<open>Decode\<close> reads it from \<open>Data\<close>.
\<close>

record Block =
  Header :: Header
  Stats :: Stats
  Data :: bytes
  pairs :: "(bytes \<times> bytes) list"

definition NewBlock :: "int \<Rightarrow> Block" where
  "NewBlock now =
     \<lparr>Header = \<lparr>DataType = 0, CompressionType = 0, Count = 0, RawSizeBytes = 0,
                 StoredSizeBytes = 0, CreatedAt = now div 1000000000,
                 BlockID = replicate 32 (CHR 0x00)\<rparr>,
      Stats = \<lparr>Min_num = 0, Max_num = 0, MinKey = [], MaxKey = []\<rparr>,
      Data = [], pairs = []\<rparr>"

definition Add :: "Block \<Rightarrow> bytes \<Rightarrow> bytes \<Rightarrow> Block" where
  "Add b key val =
     b\<lparr>pairs := pairs b @ [(key, val)],
       Stats := (Stats b)
         \<lparr>MinKey := (if length (MinKey (Stats b)) = 0 \<or> key < MinKey (Stats b)
                      then key else MinKey (Stats b)),
          MaxKey := (if length (MaxKey (Stats b)) = 0 \<or> key > MaxKey (Stats b)
                      then key else MaxKey (Stats b))\<rparr>\<rparr>"

definition Get_block :: "Block \<Rightarrow> bytes \<Rightarrow> error + bytes" where
  "Get_block b key =
     (case find (\<lambda>pair. fst pair = key) (pairs b) of
        Some pair \<Rightarrow> Inr (snd pair)
      | None \<Rightarrow> Inl KeyNotFound)"

definition encode_pair :: "bytes \<times> bytes \<Rightarrow> bytes" where
  "encode_pair pair = le32 (length (fst pair)) @ fst pair @ le32 (length (snd pair)) @ snd pair"

text \<open>
  \<open>Finalize\<close>: \<open>sort.Slice\<close> leaves a permutation of the pairs that is sorted by key;
  where keys repeat it does not say in which order. The model takes the stable order
  (\<open>sort_key\<close>); with distinct keys there is only one sorted order.
\<close>

definition payload_of :: "(bytes \<times> bytes) list \<Rightarrow> bytes" where
  "payload_of ps = le32 (length ps) @ concat (map encode_pair ps)"

definition Finalize :: "Block \<Rightarrow> Block" where
  "Finalize b =
     b\<lparr>pairs := sort_key fst (pairs b),
       Data := payload_of (sort_key fst (pairs b)),
       Header := (Header b)
         \<lparr>Count := length (pairs b) mod 4294967296,
          RawSizeBytes := length (payload_of (sort_key fst (pairs b))) mod 4294967296,
          StoredSizeBytes := length (payload_of (sort_key fst (pairs b))) mod 4294967296,
          BlockID := Sum256 (payload_of (sort_key fst (pairs b)))\<rparr>\<rparr>"

definition encode_header :: "Header \<Rightarrow> bytes" where
  "encode_header h =
     [char_of (DataType h), char_of (CompressionType h)] @ le32 (Count h) @
     le32 (RawSizeBytes h) @ le32 (StoredSizeBytes h) @ le64 (uint64 (CreatedAt h)) @ BlockID h"

definition encode_key :: "bytes \<Rightarrow> bytes" where
  "encode_key k = le32 (length k) @ (if length k mod 4294967296 > 0 then k else [])"

text \<open>\<open>Encode\<close> returns what it writes and the block, which it may have finalized.\<close>

definition Encode :: "Block \<Rightarrow> bytes \<times> Block" where
  "Encode b =
     (let b' = (if length (Data b) = 0 then Finalize b else b)
      in (encode_header (Header b') @ le64 (Min_num (Stats b')) @ le64 (Max_num (Stats b')) @
          encode_key (MinKey (Stats b')) @ encode_key (MaxKey (Stats b')) @ Data b', b'))"

text \<open>\<open>io.ReadFull\<close> of \<open>n\<close> bytes: fails when fewer are left.\<close>

definition ReadFull :: "nat \<Rightarrow> bytes \<Rightarrow> (bytes \<times> bytes) option" where
  "ReadFull n r = (if length r < n then None else Some (take n r, drop n r))"

definition decode_header :: "bytes \<Rightarrow> Header" where
  "decode_header hb =
     \<lparr>DataType = of_char (hb ! 0), CompressionType = of_char (hb ! 1),
      Count = le_val (take 4 (drop 2 hb)), RawSizeBytes = le_val (take 4 (drop 6 hb)),
      StoredSizeBytes = le_val (take 4 (drop 10 hb)),
      CreatedAt = int64 (le_val (take 8 (drop 14 hb))), BlockID = take 32 (drop 22 hb)\<rparr>"

fun decode_pairs :: "nat \<Rightarrow> bytes \<Rightarrow> (bytes \<times> bytes) list option" where
  "decode_pairs 0 r = Some []"
| "decode_pairs (Suc n) r =
     do {
       (keyLen, r1) \<leftarrow> ReadFull 4 r;
       (key, r2) \<leftarrow> ReadFull (le_val keyLen) r1;
       (valueLen, r3) \<leftarrow> ReadFull 4 r2;
       (val, r4) \<leftarrow> ReadFull (le_val valueLen) r3;
       ps \<leftarrow> decode_pairs n r4;
       Some ((key, val) # ps)
     }"

text \<open>\<open>Decode\<close>: \<open>None\<close> is any of its read errors.\<close>

definition Decode :: "Block \<Rightarrow> bytes \<Rightarrow> Block option" where
  "Decode b r =
     do {
       (hb, r1) \<leftarrow> ReadFull 54 r;
       (mn, r2) \<leftarrow> ReadFull 8 r1;
       (mx, r3) \<leftarrow> ReadFull 8 r2;
       (minKeyLen, r4) \<leftarrow> ReadFull 4 r3;
       (mink, r5) \<leftarrow> ReadFull (le_val minKeyLen) r4;
       (maxKeyLen, r6) \<leftarrow> ReadFull 4 r5;
       (maxk, r7) \<leftarrow> ReadFull (le_val maxKeyLen) r6;
       (data, r8) \<leftarrow> ReadFull (StoredSizeBytes (decode_header hb)) r7;
       (count, d1) \<leftarrow> ReadFull 4 data;
       ps \<leftarrow> decode_pairs (le_val count) d1;
       Some (b\<lparr>Header := decode_header hb,
               Stats := \<lparr>Min_num = le_val mn, Max_num = le_val mx,
                         MinKey = (if le_val minKeyLen > 0 then mink else MinKey (Stats b)),
                         MaxKey = (if le_val maxKeyLen > 0 then maxk else MaxKey (Stats b))\<rparr>,
               Data := data, pairs := ps\<rparr>)
     }"

section \<open>LSM tree\<close>

text \<open>
  A block file \<open>dataDir/L<level>/<name>\<close> is addressed by its level and name. The data
  directory maps such paths to modification time and content; a level directory exists
  when it holds a file. Calls to the filesystem are taken to succeed unless a file is
  missing, and the clock is read once per call. The mutex of the tree is left out: no
  function of the tree is called while it is held.
\<close>

type_synonym path = "nat \<times> string"

type_synonym disk = "(path \<times> int \<times> bytes) list"

record blockInfo =
  path :: path
  size_blk :: int
  minKey :: bytes
  maxKey :: bytes
  createdAt :: int

record LSMTree =
  dataDir :: disk
  levels :: "blockInfo list list"
  compacting :: bool
  compactionChan :: bool

definition levelMaxSizes :: "nat \<Rightarrow> int" where
  "levelMaxSizes i = 64 * 1024 * 1024 * 4 ^ i"

definition compactionThresholds :: "nat \<Rightarrow> int" where
  "compactionThresholds i = levelMaxSizes i * 3 div 4"

text \<open>\<open>os.ReadDir\<close> lists the entries of a directory sorted by name.\<close>

definition ReadDir :: "disk \<Rightarrow> nat \<Rightarrow> (string \<times> int \<times> bytes) list" where
  "ReadDir dsk level =
     sort_key fst (map (\<lambda>f. (snd (fst f), snd f)) (filter (\<lambda>f. fst (fst f) = level) dsk))"

text \<open>\<open>filepath.Ext\<close>: the suffix that starts at the last dot of the name.\<close>

definition Ext :: "string \<Rightarrow> string" where
  "Ext name =
     (if CHR ''.'' \<in> set name
      then CHR ''.'' # rev (takeWhile (\<lambda>c. c \<noteq> CHR ''.'') (rev name)) else [])"

text \<open>
  \<open>loadExistingBlocks\<close>: the minimum and the maximum key of each block found are both
  set to the file name (the header is not read), then the level is sorted by them.
\<close>

definition found_blocks :: "disk \<Rightarrow> nat \<Rightarrow> blockInfo list" where
  "found_blocks dsk level =
     map (\<lambda>f. \<lparr>path = (level, fst f), size_blk = int (length (snd (snd f))),
               minKey = fst f, maxKey = fst f, createdAt = fst (snd f)\<rparr>)
       (filter (\<lambda>f. Ext (fst f) = ''.blk'') (ReadDir dsk level))"

definition loadExistingBlocks :: "LSMTree \<Rightarrow> LSMTree" where
  "loadExistingBlocks t =
     t\<lparr>levels :=
         map (\<lambda>level. if ReadDir (dataDir t) level = [] then levels t ! level
                      else sort_key minKey (levels t ! level @ found_blocks (dataDir t) level))
           [0 ..< 7]\<rparr>"

definition NewLSMTree :: "disk \<Rightarrow> LSMTree" where
  "NewLSMTree dsk =
     loadExistingBlocks
       \<lparr>dataDir = dsk, levels = replicate 7 [], compacting = False, compactionChan = False\<rparr>"

definition shouldCompact :: "LSMTree \<Rightarrow> nat \<Rightarrow> bool" where
  "shouldCompact t level =
     (sum_list (map size_blk (levels t ! level)) \<ge> compactionThresholds level)"

definition triggerCompaction :: "LSMTree \<Rightarrow> LSMTree" where
  "triggerCompaction t =
     (if \<not> compacting t then t\<lparr>compacting := True, compactionChan := True\<rparr> else t)"

text \<open>
  \<open>Write\<close>: the file name is built from the clock and the block id as it is before
  \<open>Encode\<close> finalizes the block.
\<close>

definition Write :: "LSMTree \<Rightarrow> int \<Rightarrow> Block \<Rightarrow> LSMTree" where
  "Write t now b =
     (let p = (0, fmt_d now @ ''_'' @ hex_EncodeToString (BlockID (Header b)) @ ''.blk'');
          enc = fst (Encode b);
          b' = snd (Encode b);
          t1 = t\<lparr>dataDir := AList.update p (now, enc) (dataDir t),
                 levels := (levels t)
                   [0 := levels t ! 0 @
                      [\<lparr>path = p, size_blk = int (length enc), minKey = MinKey (Stats b'),
                        maxKey = MaxKey (Stats b'), createdAt = now\<rparr>]]\<rparr>
      in if shouldCompact t1 0 then triggerCompaction t1 else t1)"

definition keyInRange :: "bytes \<Rightarrow> bytes \<Rightarrow> bytes \<Rightarrow> bool" where
  "keyInRange key mn mx = (key \<ge> mn \<and> key \<le> mx)"

text \<open>
  \<open>readFromBlock\<close> decodes into a fresh block; \<open>Decode\<close> replaces its header, so the
  creation time of that block plays no part.
\<close>

definition readFromBlock :: "disk \<Rightarrow> path \<Rightarrow> bytes \<Rightarrow> error + bytes" where
  "readFromBlock dsk p key =
     (case map_of dsk p of
        None \<Rightarrow> Inl BlockOpenFailed
      | Some f \<Rightarrow>
          (case Decode (NewBlock 0) (snd f) of
             None \<Rightarrow> Inl BlockDecodeFailed
           | Some b \<Rightarrow> Get_block b key))"

function findBlockIndex_loop :: "blockInfo list \<Rightarrow> bytes \<Rightarrow> int \<Rightarrow> int \<Rightarrow> int" where
  "findBlockIndex_loop bs key left right =
     (if left \<le> right
      then if key < minKey (bs ! nat ((left + right) div 2))
           then findBlockIndex_loop bs key left ((left + right) div 2 - 1)
           else if key > maxKey (bs ! nat ((left + right) div 2))
           then findBlockIndex_loop bs key ((left + right) div 2 + 1) right
           else (left + right) div 2
      else - 1)"
  by pat_completeness auto
termination
  by (relation "measure (\<lambda>(bs, key, left, right). nat (right - left + 1))") auto

declare findBlockIndex_loop.simps [simp del]

definition findBlockIndex :: "LSMTree \<Rightarrow> nat \<Rightarrow> bytes \<Rightarrow> int" where
  "findBlockIndex t level key =
     findBlockIndex_loop (levels t ! level) key 0 (int (length (levels t ! level)) - 1)"

text \<open>The scan of level 0 in \<open>Read\<close>, over the blocks newest first.\<close>

fun read_level0 :: "disk \<Rightarrow> blockInfo list \<Rightarrow> bytes \<Rightarrow> bytes option" where
  "read_level0 dsk [] key = None"
| "read_level0 dsk (b # bs) key =
     (if keyInRange key (minKey b) (maxKey b)
      then (case readFromBlock dsk (path b) key of
              Inr v \<Rightarrow> Some v
            | Inl err \<Rightarrow> read_level0 dsk bs key)
      else read_level0 dsk bs key)"

text \<open>The lookup in one of the levels 1 to 6, and the loop over them.\<close>

definition read_level :: "LSMTree \<Rightarrow> nat \<Rightarrow> bytes \<Rightarrow> bytes option" where
  "read_level t level key =
     (if findBlockIndex t level key \<ge> 0
      then (case readFromBlock (dataDir t)
                   (path (levels t ! level ! nat (findBlockIndex t level key))) key of
              Inr v \<Rightarrow> Some v
            | Inl err \<Rightarrow> None)
      else None)"

fun read_levels :: "LSMTree \<Rightarrow> nat list \<Rightarrow> bytes \<Rightarrow> bytes option" where
  "read_levels t [] key = None"
| "read_levels t (level # ls) key =
     (case (if level = 0 then read_level0 (dataDir t) (rev (levels t ! 0)) key
            else read_level t level key) of
        Some v \<Rightarrow> Some v
      | None \<Rightarrow> read_levels t ls key)"

definition Read :: "LSMTree \<Rightarrow> bytes \<Rightarrow> error + bytes" where
  "Read t key =
     (case read_levels t [0 ..< 7] key of
        Some v \<Rightarrow> Inr v
      | None \<Rightarrow> Inl KeyNotFound)"

section \<open>Compaction\<close>

record compactionTask =
  sourceLevel :: nat
  targetLevel :: nat
  blocks :: "blockInfo list"

text \<open>
  \<open>compact\<close> on the data directory. Each reader goroutine opens its block file, adds the
  block size to \<open>bytesRead\<close> and sends one pair: the block's minimum key with the value
  \<open>"placeholder value"\<close>; it does not read the file. The target file is created and the
  pairs received are counted into \<open>bytesWritten\<close>; nothing is written to the file. If a
  block file could not be opened the error is returned before any file is deleted;
  otherwise every source file is removed. The result is the directory, \<open>bytesRead\<close>,
  \<open>bytesWritten\<close> and the error.
\<close>

definition compact :: "disk \<Rightarrow> int \<Rightarrow> compactionTask \<Rightarrow> disk \<times> int \<times> int \<times> error option" where
  "compact dsk now task =
     (let bs = sort_key minKey (blocks task);
          opened = filter (\<lambda>b. map_of dsk (path b) \<noteq> None) bs;
          bytesRead = sum_list (map size_blk opened);
          bytesWritten =
            sum_list (map (\<lambda>b. int (length (minKey b) + length ''placeholder value'')) opened);
          dsk1 = AList.update (targetLevel task, fmt_d now @ ''.blk'') (now, []) dsk
      in if length opened < length bs then (dsk1, bytesRead, bytesWritten, Some BlockOpenFailed)
         else (fold (\<lambda>b d. AList.delete (path b) d) bs dsk1, bytesRead, bytesWritten, None))"

section \<open>Checkpoint\<close>

record CheckpointData =
  Timestamp_ck :: int
  LastWALTimestamp :: int
  MemTable :: "(bytes \<times> bytes) list"
  MemTableSize :: int

text \<open>
  The checkpoint file: absent, not decodable, or the JSON document of a
  \<open>CheckpointData\<close>, which is taken to decode to what was encoded.
\<close>

datatype ckfile = NoFile | Undecodable | Json CheckpointData

record Checkpoint =
  ckpath :: ckfile
  lastWALTimestamp :: int

definition NewCheckpoint :: "ckfile \<Rightarrow> Checkpoint" where
  "NewCheckpoint f = \<lparr>ckpath = f, lastWALTimestamp = 0\<rparr>"

definition Save :: "Checkpoint \<Rightarrow> int \<Rightarrow> (bytes \<times> bytes) list \<Rightarrow> int \<Rightarrow> int \<Rightarrow> Checkpoint" where
  "Save c now mt sz lastTs =
     \<lparr>ckpath = Json \<lparr>Timestamp_ck = now, LastWALTimestamp = lastTs, MemTable = mt,
                      MemTableSize = sz\<rparr>,
      lastWALTimestamp = lastTs\<rparr>"

definition Load :: "Checkpoint \<Rightarrow> Checkpoint \<times> (bytes \<times> bytes) list \<times> int \<times> int" where
  "Load c =
     (case ckpath c of
        NoFile \<Rightarrow> (c, [], 0, 0)
      | Undecodable \<Rightarrow> (c, [], 0, 0)
      | Json d \<Rightarrow>
          (c\<lparr>lastWALTimestamp := LastWALTimestamp d\<rparr>, MemTable d, MemTableSize d,
           LastWALTimestamp d))"

section \<open>Engine\<close>

text \<open>
  \<open>sync.RWMutex\<close>, as one goroutine sees it. \<open>Lock\<close> and \<open>RLock\<close> give the mutex after
  the call, or \<open>None\<close> when the call cannot go on: the mutex is held, and in the run of
  one goroutine nothing will release it, so the call never returns. An operation that
  takes the lock and releases it before it returns leaves the mutex as it found it.
\<close>

datatype RWMutex = Unlocked | Locked | RLocked nat

definition Lock :: "RWMutex \<Rightarrow> RWMutex option" where
  "Lock m = (case m of Unlocked \<Rightarrow> Some Locked | Locked \<Rightarrow> None | RLocked n \<Rightarrow> None)"

definition RLock :: "RWMutex \<Rightarrow> RWMutex option" where
  "RLock m =
     (case m of Unlocked \<Rightarrow> Some (RLocked 1) | Locked \<Rightarrow> None | RLocked n \<Rightarrow> Some (RLocked (Suc n)))"

text \<open>
  The memory table is a Go map, held as an association list with one entry per key; the
  order in which Go ranges over a map is the order of the list. \<open>flushChan\<close> and
  \<open>checkpointChan\<close> have capacity 1 and tell whether a signal is queued. The size
  counter is an \<open>int64\<close> taken not to overflow. An operation of the engine gives \<open>None\<close>
  when it never returns. Each operation is taken on its own: the background flusher, the
  checkpointer and the compaction workers do not run in between.
\<close>

record Engine =
  lsm :: LSMTree
  wal :: WAL
  checkpoint :: Checkpoint
  mu :: RWMutex
  memTable :: "(bytes \<times> bytes) list"
  memTableSize :: int
  maxMemTableSize :: int
  flushChan :: bool
  checkpointChan :: bool
  lastCheckpointedWALTimestamp :: int
  closed :: bool

text \<open>The callback of \<open>recover\<close>, applied to each replayed entry.\<close>

definition recover_apply :: "WALEntry \<Rightarrow> Engine \<Rightarrow> error option \<times> Engine" where
  "recover_apply entry e =
     (None,
      (if OpType entry = OpTypePut
       then e\<lparr>memTable := AList.update (Key entry) (Value entry) (memTable e),
              memTableSize := memTableSize e + int (length (Key entry) + length (Value entry))\<rparr>
       else if OpType entry = OpTypeDelete
       then e\<lparr>memTable := AList.delete (Key entry) (memTable e)\<rparr>
       else e)
      \<lparr>lastCheckpointedWALTimestamp := Timestamp entry\<rparr>)"

definition recover :: "Engine \<Rightarrow> error option \<times> Engine" where
  "recover e =
     (case Load (checkpoint e) of
        (c, mt, sz, lastTs) \<Rightarrow>
          ReplayFrom (wal e) lastTs recover_apply
            (e\<lparr>checkpoint := c, memTable := mt, memTableSize := sz,
               lastCheckpointedWALTimestamp := lastTs\<rparr>))"

definition Put :: "Engine \<Rightarrow> int \<Rightarrow> bytes \<Rightarrow> bytes \<Rightarrow> (error option \<times> Engine) option" where
  "Put e now key val =
     (case Lock (mu e) of
        None \<Rightarrow> None
      | Some m \<Rightarrow>
          Some (if closed e then (Some EngineClosed, e)
                else (None,
                  e\<lparr>wal := AppendPut (wal e) now key val,
                    memTable := AList.update key val (memTable e),
                    memTableSize := memTableSize e + int (length key + length val) -
                      (case map_of (memTable e) key of
                         Some oldValue \<Rightarrow> int (length oldValue) | None \<Rightarrow> 0),
                    flushChan := (flushChan e \<or>
                      memTableSize e + int (length key + length val) -
                        (case map_of (memTable e) key of
                           Some oldValue \<Rightarrow> int (length oldValue) | None \<Rightarrow> 0)
                      \<ge> maxMemTableSize e)\<rparr>)))"

definition Get :: "Engine \<Rightarrow> bytes \<Rightarrow> (error + bytes) option" where
  "Get e key =
     (case RLock (mu e) of
        None \<Rightarrow> None
      | Some m \<Rightarrow>
          Some (if closed e then Inl EngineClosed
                else (case map_of (memTable e) key of
                        Some v \<Rightarrow> Inr v
                      | None \<Rightarrow> Read (lsm e) key)))"

definition Delete :: "Engine \<Rightarrow> int \<Rightarrow> bytes \<Rightarrow> (error option \<times> Engine) option" where
  "Delete e now key =
     (case Lock (mu e) of
        None \<Rightarrow> None
      | Some m \<Rightarrow>
          Some (if closed e then (Some EngineClosed, e)
                else (None,
                  e\<lparr>wal := AppendDelete (wal e) now key,
                    memTable := AList.delete key (memTable e),
                    memTableSize := memTableSize e -
                      (case map_of (memTable e) key of
                         Some oldValue \<Rightarrow> int (length oldValue) | None \<Rightarrow> 0)\<rparr>)))"

definition createCheckpoint :: "Engine \<Rightarrow> int \<Rightarrow> (error option \<times> Engine) option" where
  "createCheckpoint e now =
     (case RLock (mu e) of
        None \<Rightarrow> None
      | Some m \<Rightarrow>
          Some (None,
            e\<lparr>checkpoint := Save (checkpoint e) now (memTable e) (memTableSize e)
                               (lastCheckpointedWALTimestamp e)\<rparr>))"

definition flush :: "Engine \<Rightarrow> int \<Rightarrow> (error option \<times> Engine) option" where
  "flush e now =
     (case Lock (mu e) of
        None \<Rightarrow> None
      | Some m \<Rightarrow>
          Some (None,
            e\<lparr>memTable := [], memTableSize := 0,
              lsm := Write (lsm e) now
                       (fold (\<lambda>kv b. Add b (fst kv) (snd kv)) (memTable e) (NewBlock now))\<rparr>))"

text \<open>
  \<open>Close\<close> takes the write lock and keeps it (the unlock is deferred) while it calls
  \<open>createCheckpoint\<close> and \<open>flush\<close>. What follows the flush (closing the channels, the
  compaction workers, the WAL and the LSM tree) changes nothing of the state held here.
\<close>

definition Close :: "Engine \<Rightarrow> int \<Rightarrow> Engine option" where
  "Close e now =
     (case Lock (mu e) of
        None \<Rightarrow> None
      | Some m \<Rightarrow>
          if closed e then Some e
          else (case createCheckpoint (e\<lparr>mu := m, closed := True\<rparr>) now of
                  None \<Rightarrow> None
                | Some r1 \<Rightarrow>
                    (case flush (snd r1) now of
                       None \<Rightarrow> None
                     | Some r2 \<Rightarrow> Some ((snd r2)\<lparr>mu := Unlocked\<rparr>))))"

text \<open>
  \<open>NewEngine\<close> on the content of the base directory: the data directory, the WAL
  directory and the checkpoint file. When recovery fails the engine is closed before the
  error is returned.
\<close>

definition NewEngine :: "disk \<Rightarrow> (int \<times> bytes) list \<Rightarrow> ckfile \<Rightarrow> int \<Rightarrow> (error + Engine) option" where
  "NewEngine dsk wdir ck now =
     (case recover
             \<lparr>lsm = NewLSMTree dsk, wal = NewWAL wdir now, checkpoint = NewCheckpoint ck,
              mu = Unlocked, memTable = [], memTableSize = 0,
              maxMemTableSize = 32 * 1024 * 1024, flushChan = False, checkpointChan = False,
              lastCheckpointedWALTimestamp = 0, closed = False\<rparr> of
        (None, e) \<Rightarrow> Some (Inr e)
      | (Some err, e) \<Rightarrow> (case Close e now of None \<Rightarrow> None | Some e' \<Rightarrow> Some (Inl err)))"

section \<open>Evaluation\<close>

text \<open>Equations that let the simplifier run the checksum and the byte encodings.\<close>

lemma crc_table_unroll:
  "crc_table i = crc_bit (crc_bit (crc_bit (crc_bit (crc_bit (crc_bit (crc_bit (crc_bit i)))))))"
  by (simp add: crc_table_def eval_nat_numeral funpow_swap1)

lemmas crc_eval = crc32c_def crc_table_unroll crc_bit_def Castagnoli_def

lemmas byte_eval = char_of_def bit_Suc_0_iff le32_def le64_def uint64_def int64_def

lemma le32_length [simp]: "length (le32 n) = 4"
  by (simp add: le32_def)

lemma le64_length [simp]: "length (le64 n) = 8"
  by (simp add: le64_def)

lemma NewWAL_empty:
  "NewWAL [] 100 = \<lparr>walDir = [(100, [])], file_wal = 100, size_wal = 0, maxSize = 67108864\<rparr>"
  by (simp add: NewWAL_def openCurrentFile_def latest_file_def)

lemma walDir_first_append:
  "walDir (AppendPut (NewWAL [] 100) now key val) = [(100, append_buf now OpTypePut key val)]"
  by (simp add: AppendPut_def append_wal_def NewWAL_empty write_file_def Let_def)

lemma sort_walFiles_single: "sort_walFiles [f] = [f]"
  by (simp add: sort_walFiles_def)

section \<open>The write-ahead log: append and replay\<close>

text \<open>
  The record that \<open>AppendPut\<close> writes for the key \<open>a\<close> and the value \<open>b\<close> at time 200:
  its body (entry size and payload), the checksum \<open>append\<close> stores, which covers the
  body, and the checksum \<open>replayFileFrom\<close> computes, which covers the payload only.
\<close>

lemma body_a_b:
  "le32 19 @ entry_payload 200 OpTypePut ''a'' ''b'' =
     [CHR 0x13, CHR 0x00, CHR 0x00, CHR 0x00, CHR 0xC8, CHR 0x00, CHR 0x00, CHR 0x00,
      CHR 0x00, CHR 0x00, CHR 0x00, CHR 0x00, CHR 0x01, CHR 0x01, CHR 0x00, CHR 0x00,
      CHR 0x00, CHR ''a'', CHR 0x01, CHR 0x00, CHR 0x00, CHR 0x00, CHR ''b'']"
  by (simp add: entry_payload_def OpTypePut_def byte_eval)

lemma crc_body_a_b:
  "crc32c [CHR 0x13, CHR 0x00, CHR 0x00, CHR 0x00, CHR 0xC8, CHR 0x00, CHR 0x00, CHR 0x00,
      CHR 0x00, CHR 0x00, CHR 0x00, CHR 0x00, CHR 0x01, CHR 0x01, CHR 0x00, CHR 0x00,
      CHR 0x00, CHR ''a'', CHR 0x01, CHR 0x00, CHR 0x00, CHR 0x00, CHR ''b''] = 2203376374"
  by (simp add: crc_eval)

lemma crc_payload_a_b:
  "crc32c [CHR 0xC8, CHR 0x00, CHR 0x00, CHR 0x00,
      CHR 0x00, CHR 0x00, CHR 0x00, CHR 0x00, CHR 0x01, CHR 0x01, CHR 0x00, CHR 0x00,
      CHR 0x00, CHR ''a'', CHR 0x01, CHR 0x00, CHR 0x00, CHR 0x00, CHR ''b''] = 2869583697"
  by (simp add: crc_eval)

lemma append_buf_a_b:
  "append_buf 200 OpTypePut ''a'' ''b'' =
     [CHR 0xF6, CHR 0xDA, CHR ''T'', CHR 0x83,
      CHR 0x13, CHR 0x00, CHR 0x00, CHR 0x00, CHR 0xC8, CHR 0x00, CHR 0x00, CHR 0x00,
      CHR 0x00, CHR 0x00, CHR 0x00, CHR 0x00, CHR 0x01, CHR 0x01, CHR 0x00, CHR 0x00,
      CHR 0x00, CHR ''a'', CHR 0x01, CHR 0x00, CHR 0x00, CHR 0x00, CHR ''b'']"
proof -
  have "append_buf 200 OpTypePut ''a'' ''b'' =
          le32 (crc32c (le32 19 @ entry_payload 200 OpTypePut ''a'' ''b'')) @
          (le32 19 @ entry_payload 200 OpTypePut ''a'' ''b'')"
    by (simp add: append_buf_def Let_def)
  also have "\<dots> = le32 2203376374 @ (le32 19 @ entry_payload 200 OpTypePut ''a'' ''b'')"
    by (simp only: body_a_b crc_body_a_b)
  finally show ?thesis
    by (simp add: body_a_b) (simp add: byte_eval)
qed

text \<open>
  C1. The claim: for every sequence of records written by \<open>append_put\<close> and
  \<open>append_delete\<close>, \<open>replay_from(0)\<close> hands each record to the callback, and the stored
  checksum equals the one recomputed during replay, so no record is rejected. The code
  at a first input: a new WAL, one \<open>AppendPut\<close> of key \<open>a\<close> and value \<open>b\<close>, then
  \<open>Replay\<close>. The replay ends with the error "WAL entry corrupted: CRC mismatch" and the
  callback has not been called.
\<close>

theorem C1_append_then_replay_rejects_record:
  "Replay (AppendPut (NewWAL [] 100) 200 ''a'' ''b'') collect []
     = (Some WALCorrupted, [])"
proof -
  have r: "replayFileFrom (append_buf 200 OpTypePut ''a'' ''b'') 0
             collect [] = (Some WALCorrupted, [])"
    unfolding append_buf_a_b
    by (subst replayFileFrom.simps) (simp add: crc_payload_a_b)
  show ?thesis
    by (simp add: Replay_def ReplayFrom_def walDir_first_append sort_walFiles_single r)
qed

text \<open>
  C2. The claim: \<open>replay_from(from_ts, apply_fn)\<close> calls \<open>apply_fn\<close> on every record
  whose timestamp is above \<open>from_ts\<close>, in whichever WAL file the record lies, also in a
  file whose name timestamp is below \<open>from_ts\<close>. The code at a first input: the WAL file
  was created at time 100, a record is appended to it at time 300, and the replay starts
  from 200. The file is left out because its name is below 200: the replay returns
  success and the callback has not been called, although the file holds a record that
  \<open>replayFileFrom\<close> would parse to the timestamp 300.
\<close>

theorem C2_replay_skips_file_named_before_cutoff:
  "ReplayFrom (AppendPut (NewWAL [] 100) 300 ''a'' ''b'') 200
       collect [] = (None, [])
   \<and> parse_entry (drop 8 (append_buf 300 OpTypePut ''a'' ''b'')) 200
       = Parsed \<lparr>Timestamp = 300, OpType = OpTypePut, Key = ''a'', Value = ''b''\<rparr>"
proof -
  have "ReplayFrom (AppendPut (NewWAL [] 100) 300 ''a'' ''b'') 200
          collect [] = (None, [])"
    by (simp add: ReplayFrom_def walDir_first_append sort_walFiles_def)
  moreover have "drop 8 (append_buf 300 OpTypePut ''a'' ''b'')
                   = entry_payload 300 OpTypePut ''a'' ''b''"
    by (simp add: append_buf_def Let_def)
  moreover have "parse_entry (entry_payload 300 OpTypePut ''a'' ''b'') 200
                   = Parsed \<lparr>Timestamp = 300, OpType = OpTypePut, Key = ''a'', Value = ''b''\<rparr>"
    by (simp add: parse_entry_def entry_payload_def OpTypePut_def Uint64_def Uint32_def byte_eval)
  ultimately show ?thesis
    by simp
qed

section \<open>Replay and damaged records\<close>

lemma replayFileFrom_append:
  "replayFileFrom pre fromTs cb st = (None, st') \<Longrightarrow>
   replayFileFrom (pre @ tail) fromTs cb st = replayFileFrom tail fromTs cb st'"
proof (induction pre fromTs cb st rule: replayFileFrom.induct)
  case (1 r fromTs cb st)
  show ?case
  proof (cases "r = []")
    case True
    with "1.prems" show ?thesis
      by (simp add: replayFileFrom.simps)
  next
    case False
    let ?n = "le_val (take 4 (drop 4 r))"
    let ?data = "take ?n (drop 8 r)"
    from "1.prems" False have len: "8 \<le> length r"
      by (subst (asm) replayFileFrom.simps) (simp split: if_splits)
    from "1.prems" False len have n: "?n \<le> length r - 8"
      by (subst (asm) replayFileFrom.simps) (simp split: if_splits)
    from "1.prems" False len n have crc: "crc32c ?data = le_val (take 4 r)"
      by (subst (asm) replayFileFrom.simps) (simp split: if_splits)
    have same: "take 4 (drop 4 (r @ tail)) = take 4 (drop 4 r)" "take 4 (r @ tail) = take 4 r"
      "take ?n (drop 8 (r @ tail)) = ?data" "drop (8 + ?n) (r @ tail) = drop (8 + ?n) r @ tail"
      using len n by simp_all
    have fits: "\<not> length r + length tail - 8 < ?n"
      using len n by arith
    show ?thesis
    proof (cases "parse_entry ?data fromTs")
      case Panicked
      with "1.prems" False len n crc show ?thesis
        by (subst (asm) replayFileFrom.simps) simp
    next
      case Skipped
      with "1.prems" False len n crc
      have rec: "replayFileFrom (drop (8 + ?n) r) fromTs cb st = (None, st')"
        by (subst (asm) replayFileFrom.simps) simp
      have "replayFileFrom (drop (8 + ?n) r @ tail) fromTs cb st = replayFileFrom tail fromTs cb st'"
        using "1.IH"(1) False len n crc Skipped rec by simp
      then show ?thesis
        using False len n crc Skipped same fits
        by (subst replayFileFrom.simps) simp
    next
      case (Parsed entry)
      obtain eo st1 where cb: "cb entry st = (eo, st1)"
        by (cases "cb entry st")
      with "1.prems" False len n crc Parsed have eo: "eo = None"
        by (subst (asm) replayFileFrom.simps) (cases eo; simp)
      with "1.prems" False len n crc Parsed cb
      have rec: "replayFileFrom (drop (8 + ?n) r) fromTs cb st1 = (None, st')"
        by (subst (asm) replayFileFrom.simps) simp
      have "replayFileFrom (drop (8 + ?n) r @ tail) fromTs cb st1 = replayFileFrom tail fromTs cb st'"
        using "1.IH"(2) False len n crc Parsed cb eo rec by simp
      then show ?thesis
        using False len n crc Parsed same cb eo fits
        by (subst replayFileFrom.simps) simp
    qed
  qed
qed

lemma replay_files_append:
  "replay_files fs fromTs cb st = (None, st1) \<Longrightarrow>
   replay_files (fs @ gs) fromTs cb st = replay_files gs fromTs cb st1"
proof (induction fs arbitrary: st)
  case Nil
  then show ?case by simp
next
  case (Cons f fs)
  then show ?case
    by (cases "replayFileFrom (snd f) fromTs cb st") (auto split: option.splits)
qed

lemma replayFileFrom_short_header:
  "tail \<noteq> [] \<Longrightarrow> length tail < 8 \<Longrightarrow> replayFileFrom tail fromTs cb st = (Some WALHeaderRead, st)"
  by (subst replayFileFrom.simps) simp

lemma replayFileFrom_short_data:
  "8 \<le> length tail \<Longrightarrow> length tail - 8 < le_val (take 4 (drop 4 tail)) \<Longrightarrow>
   replayFileFrom tail fromTs cb st = (Some WALDataRead, st)"
  by (subst replayFileFrom.simps) auto

lemma replayFileFrom_crc_mismatch:
  "8 \<le> length tail \<Longrightarrow> le_val (take 4 (drop 4 tail)) \<le> length tail - 8 \<Longrightarrow>
   crc32c (take (le_val (take 4 (drop 4 tail))) (drop 8 tail)) \<noteq> le_val (take 4 tail) \<Longrightarrow>
   replayFileFrom tail fromTs cb st = (Some WALCorrupted, st)"
  by (subst replayFileFrom.simps) auto

text \<open>
  C3, as amended. The claim: a CRC mismatch or an incomplete record at the very end of
  the most recent WAL file is taken for a torn tail and the replay returns success;
  anywhere else it is an error. The code makes no such difference. Let the files before
  \<open>(n, pre @ tail)\<close> replay without error and let \<open>pre\<close> be whole records that
  replay without error. If \<open>tail\<close> starts with an incomplete header, with a record
  shorter than its header declares, or with a record whose checksum does not match, then
  the replay ends with the respective error, after the records before were applied, and
  the files after it are not read; this holds whether or not anything follows
  (\<open>later = []\<close> is the most recent file).
\<close>

theorem C3_bad_record_aborts_replay:
  assumes "replay_files fs fromTs cb st = (None, st1)"
    and "replayFileFrom pre fromTs cb st1 = (None, st2)"
  shows "(tail \<noteq> [] \<and> length tail < 8 \<longrightarrow>
            replay_files (fs @ (n, pre @ tail) # later) fromTs cb st = (Some WALHeaderRead, st2))
       \<and> (8 \<le> length tail \<and> length tail - 8 < le_val (take 4 (drop 4 tail)) \<longrightarrow>
            replay_files (fs @ (n, pre @ tail) # later) fromTs cb st = (Some WALDataRead, st2))
       \<and> (8 \<le> length tail \<and> le_val (take 4 (drop 4 tail)) \<le> length tail - 8 \<and>
          crc32c (take (le_val (take 4 (drop 4 tail))) (drop 8 tail)) \<noteq> le_val (take 4 tail) \<longrightarrow>
            replay_files (fs @ (n, pre @ tail) # later) fromTs cb st = (Some WALCorrupted, st2))"
proof -
  have step: "replay_files (fs @ (n, pre @ tail) # later) fromTs cb st =
          (case replayFileFrom tail fromTs cb st2 of
             (Some err, st') \<Rightarrow> (Some err, st')
           | (None, st') \<Rightarrow> replay_files later fromTs cb st')"
    using assms by (simp add: replay_files_append replayFileFrom_append)
  show ?thesis
    unfolding step
    by (simp add: replayFileFrom_short_header replayFileFrom_short_data replayFileFrom_crc_mismatch)
qed


text \<open>
  A record as \<open>replayFileFrom\<close> accepts it: the checksum of the payload, the payload
  size, the payload. Here for the key \<open>a\<close> and the value \<open>1\<close> at time 200.
\<close>

lemma payload_a_1:
  "entry_payload 200 OpTypePut ''a'' ''1'' =
     [CHR 0xC8, CHR 0x00, CHR 0x00, CHR 0x00, CHR 0x00, CHR 0x00, CHR 0x00, CHR 0x00,
      CHR 0x01, CHR 0x01, CHR 0x00, CHR 0x00, CHR 0x00, CHR ''a'', CHR 0x01, CHR 0x00,
      CHR 0x00, CHR 0x00, CHR ''1'']"
  by (simp add: entry_payload_def OpTypePut_def byte_eval)

lemma crc_payload_a_1: "crc32c (entry_payload 200 OpTypePut ''a'' ''1'') = 3917444726"
  unfolding payload_a_1 by (simp add: crc_eval)

lemma le32_crc_a_1: "le32 3917444726 = [CHR ''v'', CHR ''v'', CHR 0x7F, CHR 0xE9]"
  by (simp add: byte_eval)

lemma record_a_1_bytes:
  "le32 (crc32c (entry_payload 200 OpTypePut ''a'' ''1'')) @ le32 19 @
   entry_payload 200 OpTypePut ''a'' ''1'' =
     [CHR ''v'', CHR ''v'', CHR 0x7F, CHR 0xE9, CHR 0x13, CHR 0x00, CHR 0x00, CHR 0x00,
      CHR 0xC8, CHR 0x00, CHR 0x00, CHR 0x00, CHR 0x00, CHR 0x00, CHR 0x00, CHR 0x00,
      CHR 0x01, CHR 0x01, CHR 0x00, CHR 0x00, CHR 0x00, CHR ''a'', CHR 0x01, CHR 0x00,
      CHR 0x00, CHR 0x00, CHR ''1'']"
  by (simp add: crc_payload_a_1 le32_crc_a_1) (simp add: payload_a_1 byte_eval)

lemma record_a_1_replays:
  "replayFileFrom
     (le32 (crc32c (entry_payload 200 OpTypePut ''a'' ''1'')) @ le32 19 @
      entry_payload 200 OpTypePut ''a'' ''1'')
     0 collect []
   = (None, [\<lparr>Timestamp = 200, OpType = OpTypePut, Key = ''a'', Value = ''1''\<rparr>])"
proof -
  have p: "parse_entry (entry_payload 200 OpTypePut ''a'' ''1'') 0
             = Parsed \<lparr>Timestamp = 200, OpType = OpTypePut, Key = ''a'', Value = ''1''\<rparr>"
    by (simp add: parse_entry_def entry_payload_def OpTypePut_def Uint64_def Uint32_def byte_eval)
  show ?thesis
    unfolding record_a_1_bytes
    by (subst replayFileFrom.simps)
       (simp add: crc_payload_a_1 [unfolded payload_a_1] p [unfolded payload_a_1]
          replayFileFrom.simps [of "[]"] collect_def)
qed

text \<open>
  C3, the claim as stated fails. The only WAL file holds a valid record for
  \<open>put("a", "1")\<close> followed by a header whose payload is cut short; the replay applies
  the record and then returns the error "failed to read WAL entry data".
\<close>

theorem C3_torn_tail_counterexample:
  "ReplayFrom
     \<lparr>walDir = [(100,
         le32 (crc32c (entry_payload 200 OpTypePut ''a'' ''1'')) @ le32 19 @
         entry_payload 200 OpTypePut ''a'' ''1'' @
         le32 0 @ le32 19 @ ''torn'')],
      file_wal = 100, size_wal = 39, maxSize = 67108864\<rparr>
     0 collect []
   = (Some WALDataRead, [\<lparr>Timestamp = 200, OpType = OpTypePut, Key = ''a'', Value = ''1''\<rparr>])"
proof -
  have t: "replayFileFrom (le32 0 @ le32 19 @ ''torn'') 0 collect
             [\<lparr>Timestamp = 200, OpType = OpTypePut, Key = ''a'', Value = ''1''\<rparr>]
           = (Some WALDataRead, [\<lparr>Timestamp = 200, OpType = OpTypePut, Key = ''a'', Value = ''1''\<rparr>])"
    by (rule replayFileFrom_short_data) (simp_all add: byte_eval)
  have "replayFileFrom
          ((le32 (crc32c (entry_payload 200 OpTypePut ''a'' ''1'')) @ le32 19 @
            entry_payload 200 OpTypePut ''a'' ''1'') @ (le32 0 @ le32 19 @ ''torn''))
          0 collect []
        = (Some WALDataRead, [\<lparr>Timestamp = 200, OpType = OpTypePut, Key = ''a'', Value = ''1''\<rparr>])"
    by (simp only: replayFileFrom_append [OF record_a_1_replays] t)
  then show ?thesis
    by (simp add: ReplayFrom_def sort_walFiles_single)
qed

text \<open>
  The amended C3 at three inputs: after a valid record, a file that ends in three stray
  bytes, one that ends in a record cut short, and one with a checksum mismatch in the
  middle, followed by another file.
\<close>

theorem C3_bad_record_aborts_replay_witness:
  "replay_files
     [(100, (le32 (crc32c (entry_payload 200 OpTypePut ''a'' ''1'')) @ le32 19 @
             entry_payload 200 OpTypePut ''a'' ''1'') @ ''xyz'')]
     0 collect []
   = (Some WALHeaderRead, [\<lparr>Timestamp = 200, OpType = OpTypePut, Key = ''a'', Value = ''1''\<rparr>])
   \<and>
   replay_files
     [(100, (le32 (crc32c (entry_payload 200 OpTypePut ''a'' ''1'')) @ le32 19 @
             entry_payload 200 OpTypePut ''a'' ''1'') @ (le32 0 @ le32 19 @ ''torn''))]
     0 collect []
   = (Some WALDataRead, [\<lparr>Timestamp = 200, OpType = OpTypePut, Key = ''a'', Value = ''1''\<rparr>])
   \<and>
   replay_files
     [(100, (le32 (crc32c (entry_payload 200 OpTypePut ''a'' ''1'')) @ le32 19 @
             entry_payload 200 OpTypePut ''a'' ''1'') @ (le32 1 @ le32 0 @ ''more bytes'')),
      (300, ''a later file'')]
     0 collect []
   = (Some WALCorrupted, [\<lparr>Timestamp = 200, OpType = OpTypePut, Key = ''a'', Value = ''1''\<rparr>])"
proof -
  have nil: "replay_files [] 0 collect ([] :: WALEntry list) = (None, [])"
    by simp
  have c0: "crc32c [] = 0"
    by (simp add: crc32c_def)
  note w = C3_bad_record_aborts_replay [OF nil record_a_1_replays, of _ 100]
  have a: "''xyz'' \<noteq> [] \<and> length ''xyz'' < 8"
    by simp
  have b: "8 \<le> length (le32 0 @ le32 19 @ ''torn'') \<and>
           length (le32 0 @ le32 19 @ ''torn'') - 8
             < le_val (take 4 (drop 4 (le32 0 @ le32 19 @ ''torn'')))"
    by (simp add: byte_eval)
  have c: "8 \<le> length (le32 1 @ le32 0 @ ''more bytes'') \<and>
           le_val (take 4 (drop 4 (le32 1 @ le32 0 @ ''more bytes'')))
             \<le> length (le32 1 @ le32 0 @ ''more bytes'') - 8 \<and>
           crc32c (take (le_val (take 4 (drop 4 (le32 1 @ le32 0 @ ''more bytes''))))
                    (drop 8 (le32 1 @ le32 0 @ ''more bytes'')))
             \<noteq> le_val (take 4 (le32 1 @ le32 0 @ ''more bytes''))"
    by (simp add: byte_eval c0)
  from w [of "''xyz''" "[]"] a
  have 1: "replay_files [(100, (le32 (crc32c (entry_payload 200 OpTypePut ''a'' ''1'')) @ le32 19 @
             entry_payload 200 OpTypePut ''a'' ''1'') @ ''xyz'')] 0 collect []
       = (Some WALHeaderRead, [\<lparr>Timestamp = 200, OpType = OpTypePut, Key = ''a'', Value = ''1''\<rparr>])"
    by simp
  from w [of "le32 0 @ le32 19 @ ''torn''" "[]"] b
  have 2: "replay_files [(100, (le32 (crc32c (entry_payload 200 OpTypePut ''a'' ''1'')) @ le32 19 @
             entry_payload 200 OpTypePut ''a'' ''1'') @ (le32 0 @ le32 19 @ ''torn''))] 0 collect []
       = (Some WALDataRead, [\<lparr>Timestamp = 200, OpType = OpTypePut, Key = ''a'', Value = ''1''\<rparr>])"
    by simp
  from w [of "le32 1 @ le32 0 @ ''more bytes''" "[(300, ''a later file'')]"] c
  have 3: "replay_files [(100, (le32 (crc32c (entry_payload 200 OpTypePut ''a'' ''1'')) @ le32 19 @
             entry_payload 200 OpTypePut ''a'' ''1'') @ (le32 1 @ le32 0 @ ''more bytes'')),
      (300, ''a later file'')] 0 collect []
       = (Some WALCorrupted, [\<lparr>Timestamp = 200, OpType = OpTypePut, Key = ''a'', Value = ''1''\<rparr>])"
    by simp
  from 1 2 3 show ?thesis
    by (intro conjI)
qed

section \<open>The engine: get, put, delete\<close>

lemma NewLSMTree_empty:
  "NewLSMTree [] = \<lparr>dataDir = [], levels = [[], [], [], [], [], [], []],
                     compacting = False, compactionChan = False\<rparr>"
  by (simp add: NewLSMTree_def loadExistingBlocks_def ReadDir_def upt_rec eval_nat_numeral)

text \<open>The engine that \<open>NewEngine\<close> returns on an empty base directory at time 100.\<close>

lemma NewEngine_fresh:
  "NewEngine [] [] NoFile 100 =
     Some (Inr \<lparr>lsm = NewLSMTree [], wal = NewWAL [] 100, checkpoint = NewCheckpoint NoFile,
                mu = Unlocked, memTable = [], memTableSize = 0, maxMemTableSize = 33554432,
                flushChan = False, checkpointChan = False, lastCheckpointedWALTimestamp = 0,
                closed = False\<rparr>)"
proof -
  have "ReplayFrom (NewWAL [] 100) 0 recover_apply e = (None, e)" for e
    by (simp add: NewWAL_empty ReplayFrom_def sort_walFiles_single replayFileFrom.simps [of "[]"])
  then show ?thesis
    by (simp add: NewEngine_def recover_def Load_def NewCheckpoint_def)
qed

lemma findBlockIndex_loop_range:
  "findBlockIndex_loop bs key left right = i \<Longrightarrow> i = - 1 \<or> (left \<le> i \<and> i \<le> right)"
proof (induction bs key left right rule: findBlockIndex_loop.induct)
  case (1 bs key left right)
  show ?case
  proof (cases "left \<le> right")
    case False
    with "1.prems" show ?thesis
      by (simp add: findBlockIndex_loop.simps)
  next
    case True
    let ?mid = "(left + right) div 2"
    have mid: "left \<le> ?mid" "?mid \<le> right"
      using True by simp_all
    show ?thesis
    proof (cases "key < minKey (bs ! nat ?mid)")
      case lt: True
      with "1.prems" True have "findBlockIndex_loop bs key left (?mid - 1) = i"
        by (subst (asm) findBlockIndex_loop.simps) simp
      from "1.IH"(1) [OF True lt this] mid show ?thesis
        by auto
    next
      case nlt: False
      show ?thesis
      proof (cases "key > maxKey (bs ! nat ?mid)")
        case gt: True
        with "1.prems" True nlt have "findBlockIndex_loop bs key (?mid + 1) right = i"
          by (subst (asm) findBlockIndex_loop.simps) simp
        from "1.IH"(2) [OF True nlt gt this] mid show ?thesis
          by auto
      next
        case False
        with "1.prems" True nlt have "i = ?mid"
          by (subst (asm) findBlockIndex_loop.simps) simp
        with mid show ?thesis
          by simp
      qed
    qed
  qed
qed

lemma read_level0_None:
  "\<forall>b \<in> set bs. \<forall>v. readFromBlock dsk (path b) key \<noteq> Inr v \<Longrightarrow> read_level0 dsk bs key = None"
  by (induction bs) (auto split: sum.splits)

lemma read_level_None:
  assumes "\<forall>b \<in> set (levels t ! level). \<forall>v. readFromBlock (dataDir t) (path b) key \<noteq> Inr v"
  shows "read_level t level key = None"
proof (cases "findBlockIndex t level key \<ge> 0")
  case False
  then show ?thesis
    by (simp add: read_level_def)
next
  case True
  have "findBlockIndex t level key = - 1 \<or>
        (0 \<le> findBlockIndex t level key \<and>
         findBlockIndex t level key \<le> int (length (levels t ! level)) - 1)"
    unfolding findBlockIndex_def by (rule findBlockIndex_loop_range) simp
  with True have "nat (findBlockIndex t level key) < length (levels t ! level)"
    by auto
  then have "levels t ! level ! nat (findBlockIndex t level key) \<in> set (levels t ! level)"
    by simp
  with assms have "\<forall>v. readFromBlock (dataDir t)
      (path (levels t ! level ! nat (findBlockIndex t level key))) key \<noteq> Inr v"
    by blast
  then show ?thesis
    by (auto simp: read_level_def split: sum.splits)
qed

lemma read_levels_None:
  assumes "\<forall>level \<in> set ls. \<forall>b \<in> set (levels t ! level). \<forall>v. readFromBlock (dataDir t) (path b) key \<noteq> Inr v"
  shows "read_levels t ls key = None"
  using assms
proof (induction ls)
  case Nil
  then show ?case by simp
next
  case (Cons level ls)
  then have here: "\<forall>b \<in> set (levels t ! level). \<forall>v. readFromBlock (dataDir t) (path b) key \<noteq> Inr v"
    by simp
  have "(if level = 0 then read_level0 (dataDir t) (rev (levels t ! 0)) key
         else read_level t level key) = None"
    using here by (auto intro: read_level0_None read_level_None)
  with Cons show ?case
    by simp
qed

text \<open>
  C5, as amended. The claim: for a key that is neither in the memtable nor in any level
  of the LSM index, \<open>Engine.get\<close> returns \<open>None\<close>, not an error. The code returns what
  \<open>LSMTree.Read\<close> returns: on an open engine, for a key that is not in the memtable and
  that no block file of any level yields, \<open>Get\<close> returns the error "key not found".
\<close>

theorem C5_get_absent_key_is_error:
  assumes "mu e \<noteq> Locked" and "\<not> closed e"
    and "map_of (memTable e) key = None"
    and "length (levels (lsm e)) = 7"
    and "\<forall>bs \<in> set (levels (lsm e)). \<forall>b \<in> set bs. \<forall>v.
           readFromBlock (dataDir (lsm e)) (path b) key \<noteq> Inr v"
  shows "Get e key = Some (Inl KeyNotFound)"
proof -
  have "\<forall>level \<in> set [0 ..< 7]. levels (lsm e) ! level \<in> set (levels (lsm e))"
    using assms(4) by simp
  with assms(5) have "read_levels (lsm e) [0 ..< 7] key = None"
    by (intro read_levels_None) blast
  then have "Read (lsm e) key = Inl KeyNotFound"
    by (simp add: Read_def)
  moreover from assms(1) have "RLock (mu e) \<noteq> None"
    by (cases "mu e") (simp_all add: RLock_def)
  ultimately show ?thesis
    using assms(2,3) by (auto simp: Get_def)
qed

text \<open>
  C5, the claim as stated fails: on the engine opened on an empty directory, \<open>Get\<close> of
  the key \<open>k\<close> returns the error "key not found".
\<close>

theorem C5_get_absent_key_counterexample:
  "Get \<lparr>lsm = NewLSMTree [], wal = NewWAL [] 100, checkpoint = NewCheckpoint NoFile,
        mu = Unlocked, memTable = [], memTableSize = 0, maxMemTableSize = 33554432,
        flushChan = False, checkpointChan = False, lastCheckpointedWALTimestamp = 0,
        closed = False\<rparr> ''k''
   = Some (Inl KeyNotFound)"
  by (simp add: NewLSMTree_empty Get_def RLock_def Read_def upt_rec eval_nat_numeral
      read_level_def findBlockIndex_def findBlockIndex_loop.simps)

text \<open>
  C6, as amended. The claim: \<open>Engine.put\<close> with an empty key fails with \<open>InvalidArg\<close>
  and changes nothing. The code has no check of the key: on an open engine \<open>Put\<close> with
  the empty key returns no error, appends the Put record to the WAL, stores the value
  under the empty key and adds the length of the value, less the length of the value it
  replaces, to the size counter.
\<close>

theorem C6_put_accepts_empty_key:
  assumes "mu e = Unlocked" and "\<not> closed e"
  shows "(case Put e now [] val of
            Some (None, e') \<Rightarrow>
              wal e' = AppendPut (wal e) now [] val \<and>
              map_of (memTable e') [] = Some val \<and>
              memTableSize e' = memTableSize e + int (length val) -
                (case map_of (memTable e) [] of Some old \<Rightarrow> int (length old) | None \<Rightarrow> 0)
          | _ \<Rightarrow> False)"
  using assms by (simp add: Put_def Lock_def update_conv')

text \<open>
  C6, the claim as stated fails: \<open>Put\<close> of the empty key with the value \<open>v\<close> on the
  engine opened on an empty directory returns no error; afterwards the memtable holds
  the entry, the counter is 1 and the Put record is appended to the WAL.
\<close>

theorem C6_put_empty_key_counterexample:
  "Put \<lparr>lsm = NewLSMTree [], wal = NewWAL [] 100, checkpoint = NewCheckpoint NoFile,
        mu = Unlocked, memTable = [], memTableSize = 0, maxMemTableSize = 33554432,
        flushChan = False, checkpointChan = False, lastCheckpointedWALTimestamp = 0,
        closed = False\<rparr> 200 [] ''v''
   = Some (None,
       \<lparr>lsm = NewLSMTree [], wal = AppendPut (NewWAL [] 100) 200 [] ''v'',
        checkpoint = NewCheckpoint NoFile, mu = Unlocked, memTable = [([], ''v'')],
        memTableSize = 1, maxMemTableSize = 33554432, flushChan = False,
        checkpointChan = False, lastCheckpointedWALTimestamp = 0, closed = False\<rparr>)"
  by (simp add: Put_def Lock_def)

text \<open>The amended C6 on an engine that already holds the value \<open>old\<close> under the empty key.\<close>

theorem C6_put_accepts_empty_key_witness:
  "(case Put \<lparr>lsm = NewLSMTree [], wal = NewWAL [] 100, checkpoint = NewCheckpoint NoFile,
              mu = Unlocked, memTable = [([], ''old'')], memTableSize = 3,
              maxMemTableSize = 33554432, flushChan = False, checkpointChan = False,
              lastCheckpointedWALTimestamp = 0, closed = False\<rparr> 200 [] ''v'' of
      Some (None, e') \<Rightarrow>
        wal e' = AppendPut (NewWAL [] 100) 200 [] ''v'' \<and>
        map_of (memTable e') [] = Some ''v'' \<and> memTableSize e' = 1
    | _ \<Rightarrow> False)"
  using C6_put_accepts_empty_key
    [of "\<lparr>lsm = NewLSMTree [], wal = NewWAL [] 100, checkpoint = NewCheckpoint NoFile,
              mu = Unlocked, memTable = [([], ''old'')], memTableSize = 3,
              maxMemTableSize = 33554432, flushChan = False, checkpointChan = False,
              lastCheckpointedWALTimestamp = 0, closed = False\<rparr>" 200 "''v''"]
  by (auto split: option.splits prod.splits)

text \<open>
  C7. The claim: after any sequence of put, delete and recovery replay the size counter
  equals the sum of \<open>len(key) + len(value)\<close> over the entries of the memtable. The code
  on a new engine: after \<open>put("k", "v")\<close> the counter is 2; a following
  \<open>delete("k")\<close> empties the memtable and leaves the counter at 1 (the key bytes
  stay); a following \<open>put("k", "w")\<close> instead leaves one entry of 2 bytes and the
  counter at 3 (the key bytes are counted again); and the replay of a Delete record for
  \<open>k\<close> during recovery empties the memtable and leaves the counter at 2.
\<close>

theorem C7_size_counter_keeps_key_bytes:
  "(case NewEngine [] [] NoFile 100 of
      Some (Inr e) \<Rightarrow>
        (case Put e 200 ''k'' ''v'' of
           Some (None, e1) \<Rightarrow>
             memTable e1 = [(''k'', ''v'')] \<and> memTableSize e1 = 2 \<and>
             (case Delete e1 300 ''k'' of
                Some (None, e2) \<Rightarrow> memTable e2 = [] \<and> memTableSize e2 = 1
              | _ \<Rightarrow> False) \<and>
             (case Put e1 300 ''k'' ''w'' of
                Some (None, e2) \<Rightarrow> memTable e2 = [(''k'', ''w'')] \<and> memTableSize e2 = 3
              | _ \<Rightarrow> False) \<and>
             (case recover_apply
                     \<lparr>Timestamp = 300, OpType = OpTypeDelete, Key = ''k'', Value = []\<rparr> e1 of
                (err, e2) \<Rightarrow> memTable e2 = [] \<and> memTableSize e2 = 2)
         | _ \<Rightarrow> False)
    | _ \<Rightarrow> False)"
  by (simp add: NewEngine_fresh Put_def Delete_def Lock_def recover_apply_def
      OpTypePut_def OpTypeDelete_def)

section \<open>Block files\<close>

lemma Sum256_length [simp]: "length (Sum256 m) = 32"
  by (simp add: Sum256_def sha_digest_def word_be32_def split: prod.splits)

lemma hex_zero:
  "hex_EncodeToString (replicate n (CHR 0x00)) = replicate (2 * n) (CHR ''0'')"
  by (induction n) (simp_all add: hex_EncodeToString_def digit_char_def)

lemma le_val_le32: "le_val (le32 n) = n mod 4294967296"
proof -
  have a: "n div 65536 = n div 256 div 256" "n div 16777216 = n div 256 div 256 div 256"
    by (simp_all add: div_mult2_eq [symmetric])
  have "n mod 4294967296 = n mod (256 * (256 * (256 * 256)))"
    by simp
  also have "\<dots> = n mod 256 + 256 * (n div 256 mod (256 * (256 * 256)))"
    by (simp only: mod_mult2_eq)
  also have "n div 256 mod (256 * (256 * 256)) =
      n div 256 mod 256 + 256 * (n div 256 div 256 mod (256 * 256))"
    by (simp only: mod_mult2_eq)
  also have "n div 256 div 256 mod (256 * 256) =
      n div 256 div 256 mod 256 + 256 * (n div 256 div 256 div 256 mod 256)"
    by (simp only: mod_mult2_eq)
  finally have "n mod 4294967296 =
      n mod 256 + 256 * (n div 256 mod 256 + 256 * (n div 65536 mod 256 +
        256 * (n div 16777216 mod 256)))"
    by (simp only: a)
  then show ?thesis
    by (simp add: le32_def)
qed

lemma le_val_le32_small [simp]: "n < 4294967296 \<Longrightarrow> le_val (le32 n) = n"
  by (simp add: le_val_le32)

lemma ReadFull_append [simp]: "length a = n \<Longrightarrow> ReadFull n (a @ r) = Some (a, r)"
  by (simp add: ReadFull_def)

lemma ReadFull_exact [simp]: "length a = n \<Longrightarrow> ReadFull n a = Some (a, [])"
  by (simp add: ReadFull_def)

lemma decode_pairs_encode:
  "\<forall>p \<in> set ps. length (fst p) < 4294967296 \<and> length (snd p) < 4294967296 \<Longrightarrow>
   decode_pairs (length ps) (concat (map encode_pair ps) @ rest) = Some ps"
  by (induction ps) (simp_all add: encode_pair_def)

lemma length_encoded_pairs: "length ps \<le> length (concat (map encode_pair ps))"
  by (induction ps) (simp_all add: encode_pair_def)

lemma Decode_parts:
  assumes "length hb = 54" and "length mn = 8" and "length mx = 8"
    and "length minKeyLen = 4" and "length mink = le_val minKeyLen"
    and "length maxKeyLen = 4" and "length maxk = le_val maxKeyLen"
    and "length (cnt @ d1) = StoredSizeBytes (decode_header hb)"
    and "length cnt = 4" and "decode_pairs (le_val cnt) d1 = Some ps"
  shows "map_option pairs
           (Decode b (hb @ mn @ mx @ minKeyLen @ mink @ maxKeyLen @ maxk @ (cnt @ d1)))
         = Some ps"
proof -
  have "ReadFull (StoredSizeBytes (decode_header hb)) (cnt @ d1) = Some (cnt @ d1, [])"
    using assms(8) by (rule ReadFull_exact)
  moreover have "ReadFull 4 (cnt @ d1) = Some (cnt, d1)"
    using assms(9) by (rule ReadFull_append)
  ultimately show ?thesis
    using assms(1-7,10) by (simp add: Decode_def)
qed

lemma encode_header_length:
  "length (BlockID h) = 32 \<Longrightarrow> length (encode_header h) = 54"
  by (simp add: encode_header_def)

lemma StoredSizeBytes_encode_header:
  "StoredSizeBytes h < 4294967296 \<Longrightarrow>
   StoredSizeBytes (decode_header (encode_header h)) = StoredSizeBytes h"
  by (simp add: decode_header_def encode_header_def)

text \<open>Encoding a block that was not finalized yet and decoding the file gives its pairs, sorted.\<close>

lemma Decode_Encode_pairs:
  assumes "Data b = []"
    and "length (payload_of (sort_key fst (pairs b))) < 4294967296"
    and "\<forall>p \<in> set (pairs b). length (fst p) < 4294967296 \<and> length (snd p) < 4294967296"
    and "length (MinKey (Stats b)) < 4294967296" and "length (MaxKey (Stats b)) < 4294967296"
  shows "map_option pairs (Decode b0 (fst (Encode b))) = Some (sort_key fst (pairs b))"
proof -
  let ?ps = "sort_key fst (pairs b)"
  let ?h = "Header (Finalize b)"
  have n: "length ?ps < 4294967296"
    using assms(2) length_encoded_pairs [of ?ps] by (simp add: payload_of_def)
  have enc: "fst (Encode b) =
      encode_header ?h @ le64 (Min_num (Stats b)) @ le64 (Max_num (Stats b)) @
      le32 (length (MinKey (Stats b))) @ MinKey (Stats b) @
      le32 (length (MaxKey (Stats b))) @ MaxKey (Stats b) @
      (le32 (length ?ps) @ concat (map encode_pair ?ps))"
    using assms(1,4,5)
    by (auto simp: Encode_def Finalize_def Let_def encode_key_def payload_of_def)
  have stored: "StoredSizeBytes ?h = length (le32 (length ?ps) @ concat (map encode_pair ?ps))"
    using assms(2) by (simp add: Finalize_def payload_of_def)
  have "\<forall>p \<in> set ?ps. length (fst p) < 4294967296 \<and> length (snd p) < 4294967296"
    using assms(3) by simp
  then have dp: "decode_pairs (length ?ps) (concat (map encode_pair ?ps) @ []) = Some ?ps"
    by (rule decode_pairs_encode)
  show ?thesis
    unfolding enc
  proof (rule Decode_parts)
    show "length (encode_header ?h) = 54"
      by (simp add: encode_header_length Finalize_def)
    show "length (le32 (length ?ps) @ concat (map encode_pair ?ps))
            = StoredSizeBytes (decode_header (encode_header ?h))"
      using assms(2) stored by (simp add: StoredSizeBytes_encode_header payload_of_def)
    show "decode_pairs (le_val (le32 (length ?ps))) (concat (map encode_pair ?ps)) = Some ?ps"
      using dp n by simp
  qed (use assms(4,5) in simp_all)
qed

section \<open>Block determinism\<close>

lemma pairs_fold_Add:
  "pairs (fold (\<lambda>kv b. Add b (fst kv) (snd kv)) ps b) = pairs b @ ps"
  by (induction ps arbitrary: b) (simp_all add: Add_def)

lemma filter_same_key:
  "distinct (map f xs) \<Longrightarrow> k \<in> set xs \<Longrightarrow> filter (\<lambda>x. f k = f x) xs = [k]"
proof (induction xs)
  case Nil
  then show ?case by simp
next
  case (Cons x xs)
  show ?case
  proof (cases "k = x")
    case True
    have "filter (\<lambda>y. f x = f y) xs = []"
      using Cons.prems(1) by (auto simp: filter_empty_conv)
    with True show ?thesis
      by simp
  next
    case False
    with Cons.prems have k: "k \<in> set xs"
      by simp
    then have "f k \<in> f ` set xs"
      by (rule imageI)
    with Cons.prems(1) have "f k \<noteq> f x"
      by auto
    with Cons k show ?thesis
      by simp
  qed
qed

text \<open>With distinct keys every sorted permutation of the pairs is the one \<open>sort_key\<close> gives.\<close>

lemma sorted_permutation_unique:
  assumes "distinct (map f xs)" and "mset ys = mset xs" and "sorted (map f ys)"
  shows "sort_key f xs = ys"
proof (rule properties_for_sort_key [OF assms(2) _ assms(3)])
  fix k
  assume k: "k \<in> set ys"
  have "mset (map f ys) = mset (map f xs)"
    using assms(2) by simp
  then have dy: "distinct (map f ys)"
    using assms(1) by (metis mset_eq_imp_distinct_iff)
  have "k \<in> set xs"
    using k assms(2) by (metis mset_eq_setD)
  then show "filter (\<lambda>x. f k = f x) ys = filter (\<lambda>x. f k = f x) xs"
    using filter_same_key [OF dy k] filter_same_key [OF assms(1)] by simp
qed

lemma sort_key_same_set:
  assumes "distinct (map fst ps)" and "distinct (map fst qs)" and "set ps = set qs"
  shows "sort_key fst ps = sort_key fst qs"
proof -
  have "distinct ps" "distinct qs"
    using assms(1,2) by (simp_all add: distinct_map)
  with assms(3) have "mset qs = mset ps"
    by (simp add: set_eq_iff_mset_eq_distinct)
  then have "mset (sort_key fst qs) = mset ps"
    by simp
  with assms(1) show ?thesis
    by (rule sorted_permutation_unique) simp
qed

text \<open>
  C9. Two blocks built by adding the same set of pairs, keys unique, in any two orders
  (and at any two times) have the same payload and the same block id after \<open>Finalize\<close>,
  and the block id of every finalized block is the SHA-256 digest of its payload.
\<close>

theorem C9_block_determinism:
  assumes "distinct (map fst ps)" and "distinct (map fst qs)" and "set ps = set qs"
  shows "Data (Finalize (fold (\<lambda>kv b. Add b (fst kv) (snd kv)) ps (NewBlock t1)))
           = Data (Finalize (fold (\<lambda>kv b. Add b (fst kv) (snd kv)) qs (NewBlock t2)))
       \<and> BlockID (Header (Finalize (fold (\<lambda>kv b. Add b (fst kv) (snd kv)) ps (NewBlock t1))))
           = BlockID (Header (Finalize (fold (\<lambda>kv b. Add b (fst kv) (snd kv)) qs (NewBlock t2))))
       \<and> BlockID (Header (Finalize b)) = Sum256 (Data (Finalize b))"
proof -
  have "sort_key fst ps = sort_key fst qs"
    using assms by (rule sort_key_same_set)
  then show ?thesis
    by (simp add: Finalize_def pairs_fold_Add NewBlock_def)
qed

text \<open>C9 at three pairs added in two different orders.\<close>

theorem C9_block_determinism_witness:
  "Data (Finalize (fold (\<lambda>kv b. Add b (fst kv) (snd kv))
           [(''b'', ''2''), (''a'', ''1''), (''c'', ''3'')] (NewBlock 1000000000)))
     = Data (Finalize (fold (\<lambda>kv b. Add b (fst kv) (snd kv))
           [(''c'', ''3''), (''b'', ''2''), (''a'', ''1'')] (NewBlock 2000000000)))
   \<and> BlockID (Header (Finalize (fold (\<lambda>kv b. Add b (fst kv) (snd kv))
           [(''b'', ''2''), (''a'', ''1''), (''c'', ''3'')] (NewBlock 1000000000))))
     = BlockID (Header (Finalize (fold (\<lambda>kv b. Add b (fst kv) (snd kv))
           [(''c'', ''3''), (''b'', ''2''), (''a'', ''1'')] (NewBlock 2000000000))))
   \<and> BlockID (Header (Finalize (Add (NewBlock 0) ''k'' ''v'')))
     = Sum256 (Data (Finalize (Add (NewBlock 0) ''k'' ''v'')))"
proof -
  have d1: "distinct (map fst [(''b'', ''2''), (''a'', ''1''), (''c'', ''3'')])"
    by simp
  have d2: "distinct (map fst [(''c'', ''3''), (''b'', ''2''), (''a'', ''1'')])"
    by simp
  have s: "set [(''b'', ''2''), (''a'', ''1''), (''c'', ''3'')]
             = set [(''c'', ''3''), (''b'', ''2''), (''a'', ''1'')]"
    by auto
  show ?thesis
    by (rule C9_block_determinism [OF d1 d2 s])
qed

section \<open>The LSM tree: flush, reopen, compaction\<close>

lemma readFromBlock_pairs:
  "map_of dsk p = Some f \<Longrightarrow> map_option pairs (Decode (NewBlock 0) (snd f)) = Some ps \<Longrightarrow>
   readFromBlock dsk p key =
     (case find (\<lambda>pair. fst pair = key) ps of
        Some pair \<Rightarrow> Inr (snd pair)
      | None \<Rightarrow> Inl KeyNotFound)"
  by (auto simp: readFromBlock_def Get_block_def split: option.splits)

lemma read_level_empty: "levels t ! level = [] \<Longrightarrow> read_level t level key = None"
  by (simp add: read_level_def findBlockIndex_def findBlockIndex_loop.simps)

lemma thresholds_0: "compactionThresholds 0 = 50331648"
  by (simp add: compactionThresholds_def levelMaxSizes_def)

text \<open>The tree after one block was written into an empty data directory.\<close>

lemma Write_first:
  assumes "length (fst (Encode b)) < 50331648"
  shows "Write (NewLSMTree []) now b =
     \<lparr>dataDir = [((0, fmt_d now @ ''_'' @ hex_EncodeToString (BlockID (Header b)) @ ''.blk''),
                  (now, fst (Encode b)))],
      levels = [[\<lparr>path = (0, fmt_d now @ ''_'' @ hex_EncodeToString (BlockID (Header b)) @ ''.blk''),
                  size_blk = int (length (fst (Encode b))),
                  minKey = MinKey (Stats (snd (Encode b))),
                  maxKey = MaxKey (Stats (snd (Encode b))), createdAt = now\<rparr>],
                [], [], [], [], [], []],
      compacting = False, compactionChan = False\<rparr>"
  using assms
  by (simp add: Write_def NewLSMTree_empty Let_def shouldCompact_def thresholds_0)

lemma Encode_length:
  "Data b = [] \<Longrightarrow> length (fst (Encode b)) =
     54 - 32 + length (Sum256 (payload_of (sort_key fst (pairs b)))) + 16 +
     length (encode_key (MinKey (Stats b))) + length (encode_key (MaxKey (Stats b))) +
     length (payload_of (sort_key fst (pairs b)))"
  by (simp add: Encode_def Finalize_def encode_header_def Let_def)

lemma Encode_empty_length: "length (fst (Encode (NewBlock now))) = 82"
  by (simp add: Encode_length NewBlock_def payload_of_def encode_key_def)

lemma flush_fresh:
  "flush \<lparr>lsm = NewLSMTree [], wal = w, checkpoint = c, mu = Unlocked, memTable = [],
           memTableSize = 0, maxMemTableSize = m, flushChan = False, checkpointChan = False,
           lastCheckpointedWALTimestamp = 0, closed = False\<rparr> 200 =
   Some (None,
         \<lparr>lsm = Write (NewLSMTree []) 200 (NewBlock 200), wal = w, checkpoint = c,
          mu = Unlocked, memTable = [], memTableSize = 0, maxMemTableSize = m,
          flushChan = False, checkpointChan = False,
          lastCheckpointedWALTimestamp = 0, closed = False\<rparr>)"
  by (simp add: flush_def Lock_def)

text \<open>
  C10. The claim: every flush cycle, also the final flush of \<open>Engine.close\<close>, writes the
  memtable as a new block file in level 0 even when it is empty, so closing a new engine
  creates a level-0 block file with zero records. The code on an engine opened on an
  empty directory: \<open>Close\<close> never returns. It holds the write lock of the engine's
  mutex when it calls \<open>createCheckpoint\<close>, which asks for the read lock of the same
  mutex and waits for ever; the flush is not reached and no file is written. \<open>flush\<close>
  called on its own, as the background flusher does, does write the block file of the
  empty memtable: one file in level 0 that decodes to zero records.
\<close>

theorem C10_close_blocks_before_flush:
  "(case NewEngine [] [] NoFile 100 of
      Some (Inr e) \<Rightarrow>
        Close e 200 = None \<and>
        createCheckpoint (e\<lparr>mu := Locked, closed := True\<rparr>) 200 = None \<and>
        (case flush e 200 of
           Some (err, e') \<Rightarrow>
             err = None \<and>
             map fst (dataDir (lsm e')) = [(0, ''200_'' @ replicate 64 (CHR ''0'') @ ''.blk'')] \<and>
             map (\<lambda>f. map_option pairs (Decode (NewBlock 0) (snd (snd f)))) (dataDir (lsm e'))
               = [Some []]
         | None \<Rightarrow> False)
    | _ \<Rightarrow> False)"
proof -
  have name: "fmt_d 200 = ''200''"
    "hex_EncodeToString (BlockID (Header (NewBlock 200))) = replicate 64 (CHR ''0'')"
    by (simp_all add: fmt_d_def decimal.simps digit_char_def NewBlock_def hex_zero)
  have dec: "map_option pairs (Decode (NewBlock 0) (fst (Encode (NewBlock 200)))) = Some []"
    using Decode_Encode_pairs [of "NewBlock 200" "NewBlock 0"]
    by (simp add: NewBlock_def payload_of_def)
  have w: "Write (NewLSMTree []) 200 (NewBlock 200) =
     \<lparr>dataDir = [((0, ''200_'' @ replicate 64 (CHR ''0'') @ ''.blk''),
                  (200, fst (Encode (NewBlock 200))))],
      levels = [[\<lparr>path = (0, ''200_'' @ replicate 64 (CHR ''0'') @ ''.blk''),
                  size_blk = 82,
                  minKey = MinKey (Stats (snd (Encode (NewBlock 200)))),
                  maxKey = MaxKey (Stats (snd (Encode (NewBlock 200)))), createdAt = 200\<rparr>],
                [], [], [], [], [], []],
      compacting = False, compactionChan = False\<rparr>"
    by (subst Write_first) (simp_all add: Encode_empty_length name)
  have cl: "Close \<lparr>lsm = t, wal = w', checkpoint = c, mu = Unlocked, memTable = [],
           memTableSize = 0, maxMemTableSize = m, flushChan = False, checkpointChan = False,
           lastCheckpointedWALTimestamp = 0, closed = False\<rparr> 200 = None" for t w' c m
    by (simp add: Close_def Lock_def createCheckpoint_def RLock_def)
  show ?thesis
    by (simp add: NewEngine_fresh cl flush_fresh w dec createCheckpoint_def RLock_def)
qed

lemma upt_7: "[0 ..< 7] = [0, 1, 2, 3, 4, 5, 6]"
  by (simp add: upt_rec)

lemma Ext_blk: "Ext (n @ ''.blk'') = ''.blk''"
  by (simp add: Ext_def)

lemma Stats_Encode: "Stats (snd (Encode b)) = Stats b"
  by (simp add: Encode_def Finalize_def Let_def)

text \<open>The block file that a flush of the memtable \<open>a \<mapsto> 1, c \<mapsto> 3\<close> writes at time 5.\<close>

lemma block_a_c:
  "Write (NewLSMTree []) 5 (Add (Add (NewBlock 5) ''a'' ''1'') ''c'' ''3'') =
     \<lparr>dataDir = [((0, ''5_'' @ replicate 64 (CHR ''0'') @ ''.blk''),
                  (5, fst (Encode (Add (Add (NewBlock 5) ''a'' ''1'') ''c'' ''3''))))],
      levels = [[\<lparr>path = (0, ''5_'' @ replicate 64 (CHR ''0'') @ ''.blk''),
                  size_blk = 104, minKey = ''a'', maxKey = ''c'', createdAt = 5\<rparr>],
                [], [], [], [], [], []],
      compacting = False, compactionChan = False\<rparr>"
proof -
  have len: "length (fst (Encode (Add (Add (NewBlock 5) ''a'' ''1'') ''c'' ''3''))) = 104"
    by (simp add: Encode_length NewBlock_def Add_def payload_of_def encode_key_def encode_pair_def)
  have name: "fmt_d 5 = ''5''"
    "hex_EncodeToString (BlockID (Header (Add (Add (NewBlock 5) ''a'' ''1'') ''c'' ''3'')))
       = replicate 64 (CHR ''0'')"
    by (simp_all add: fmt_d_def decimal.simps digit_char_def NewBlock_def Add_def hex_zero)
  have st: "MinKey (Stats (Add (Add (NewBlock 5) ''a'' ''1'') ''c'' ''3'')) = ''a''"
    "MaxKey (Stats (Add (Add (NewBlock 5) ''a'' ''1'') ''c'' ''3'')) = ''c''"
    by (simp_all add: NewBlock_def Add_def)
  show ?thesis
    by (subst Write_first) (simp_all add: len name Stats_Encode st)
qed

lemma decode_a_c:
  "map_option pairs
     (Decode (NewBlock 0) (fst (Encode (Add (Add (NewBlock 5) ''a'' ''1'') ''c'' ''3''))))
   = Some [(''a'', ''1''), (''c'', ''3'')]"
  using Decode_Encode_pairs [of "Add (Add (NewBlock 5) ''a'' ''1'') ''c'' ''3''" "NewBlock 0"]
  by (simp add: NewBlock_def Add_def payload_of_def encode_pair_def)

lemma NewLSMTree_single:
  "Ext name = ''.blk'' \<Longrightarrow>
   NewLSMTree [((0, name), (mt, c))] =
     \<lparr>dataDir = [((0, name), (mt, c))],
      levels = [[\<lparr>path = (0, name), size_blk = int (length c), minKey = name,
                  maxKey = name, createdAt = mt\<rparr>], [], [], [], [], [], []],
      compacting = False, compactionChan = False\<rparr>"
  by (simp add: NewLSMTree_def loadExistingBlocks_def upt_7 ReadDir_def found_blocks_def)

lemma Read_single_hit:
  "keyInRange key mn mx \<Longrightarrow> readFromBlock dsk p key = Inr v \<Longrightarrow>
   Read \<lparr>dataDir = dsk,
         levels = [[\<lparr>path = p, size_blk = sz, minKey = mn, maxKey = mx, createdAt = ct\<rparr>],
                   [], [], [], [], [], []],
         compacting = cg, compactionChan = cc\<rparr> key = Inr v"
  by (simp add: Read_def upt_7)

lemma Read_single_out_of_range:
  "\<not> keyInRange key mn mx \<Longrightarrow>
   Read \<lparr>dataDir = dsk,
         levels = [[\<lparr>path = p, size_blk = sz, minKey = mn, maxKey = mx, createdAt = ct\<rparr>],
                   [], [], [], [], [], []],
         compacting = cg, compactionChan = cc\<rparr> key = Inl KeyNotFound"
  by (simp add: Read_def upt_7 read_level_empty)

text \<open>
  C8. The claim: the index rebuilt on open takes the minimum and maximum key of each
  block from the header of its file, so a key between them is searched in that block.
  The code: a block with the keys \<open>a\<close> and \<open>c\<close> is written at time 5 into an empty
  data directory; the tree that wrote it has the range \<open>a\<close> to \<open>c\<close> and reads \<open>a\<close>.
  The tree reopened on that directory has the file name as both minimum and maximum key
  of the block, and reading \<open>a\<close> gives "key not found": the block is not searched.
\<close>

theorem C8_reopen_takes_file_name_for_key_range:
  "(let t = Write (NewLSMTree []) 5 (Add (Add (NewBlock 5) ''a'' ''1'') ''c'' ''3'');
        t' = NewLSMTree (dataDir t)
    in map minKey (levels t ! 0) = [''a''] \<and> map maxKey (levels t ! 0) = [''c''] \<and>
       Read t ''a'' = Inr ''1'' \<and>
       map minKey (levels t' ! 0) = [''5_'' @ replicate 64 (CHR ''0'') @ ''.blk''] \<and>
       map maxKey (levels t' ! 0) = [''5_'' @ replicate 64 (CHR ''0'') @ ''.blk''] \<and>
       Read t' ''a'' = Inl KeyNotFound)"
proof -
  let ?name = "''5_'' @ replicate 64 (CHR ''0'') @ ''.blk''"
  let ?enc = "fst (Encode (Add (Add (NewBlock 5) ''a'' ''1'') ''c'' ''3''))"
  let ?dsk = "[((0::nat, ?name), (5::int, ?enc))]"
  let ?t = "Write (NewLSMTree []) 5 (Add (Add (NewBlock 5) ''a'' ''1'') ''c'' ''3'')"
  have m: "map_of ?dsk (0, ?name) = Some (5, ?enc)"
    by simp
  have d: "map_option pairs (Decode (NewBlock 0) (snd (5::int, ?enc)))
             = Some [(''a'', ''1''), (''c'', ''3'')]"
    by (simp only: snd_conv decode_a_c)
  have rd: "readFromBlock ?dsk (0, ?name) ''a'' = Inr ''1''"
    by (rule trans [OF readFromBlock_pairs [OF m d]]) simp
  have in_range: "keyInRange ''a'' ''a'' ''c''"
    by (simp add: keyInRange_def)
  have out_of_range: "\<not> keyInRange ''a'' ?name ?name"
    by (simp add: keyInRange_def)
  have ext: "Ext ?name = ''.blk''"
    using Ext_blk [of "''5_'' @ replicate 64 (CHR ''0'')"] by simp
  have dd: "dataDir ?t = ?dsk"
    by (simp only: block_a_c LSMTree.simps)
  have 1: "map minKey (levels ?t ! 0) = [''a'']" and 2: "map maxKey (levels ?t ! 0) = [''c'']"
    unfolding block_a_c by simp_all
  have 3: "Read ?t ''a'' = Inr ''1''"
    unfolding block_a_c by (rule Read_single_hit [OF in_range rd])
  have 4: "map minKey (levels (NewLSMTree (dataDir ?t)) ! 0) = [?name]"
    and 5: "map maxKey (levels (NewLSMTree (dataDir ?t)) ! 0) = [?name]"
    unfolding dd NewLSMTree_single [OF ext] by simp_all
  have 6: "Read (NewLSMTree (dataDir ?t)) ''a'' = Inl KeyNotFound"
    unfolding dd NewLSMTree_single [OF ext] by (rule Read_single_out_of_range [OF out_of_range])
  from 1 2 3 4 5 6 show ?thesis
    unfolding Let_def by (intro conjI)
qed

text \<open>
  The amended C5 on an engine with an entry in the memtable and a block with the keys
  \<open>a\<close> and \<open>c\<close> in level 0, asked for the key \<open>b\<close>: the block is searched and does not
  hold it.
\<close>

theorem C5_get_absent_key_is_error_witness:
  "Get \<lparr>lsm = Write (NewLSMTree []) 5 (Add (Add (NewBlock 5) ''a'' ''1'') ''c'' ''3''),
        wal = NewWAL [] 100, checkpoint = NewCheckpoint NoFile, mu = Unlocked,
        memTable = [(''m'', ''x'')], memTableSize = 2, maxMemTableSize = 33554432,
        flushChan = False, checkpointChan = False, lastCheckpointedWALTimestamp = 0,
        closed = False\<rparr> ''b''
   = Some (Inl KeyNotFound)"
proof -
  let ?name = "''5_'' @ replicate 64 (CHR ''0'') @ ''.blk''"
  let ?enc = "fst (Encode (Add (Add (NewBlock 5) ''a'' ''1'') ''c'' ''3''))"
  let ?dsk = "[((0::nat, ?name), (5::int, ?enc))]"
  have m: "map_of ?dsk (0, ?name) = Some (5, ?enc)"
    by simp
  have d: "map_option pairs (Decode (NewBlock 0) (snd (5::int, ?enc)))
             = Some [(''a'', ''1''), (''c'', ''3'')]"
    by (simp only: snd_conv decode_a_c)
  have rd: "readFromBlock ?dsk (0, ?name) ''b'' = Inl KeyNotFound"
    by (rule trans [OF readFromBlock_pairs [OF m d]]) simp
  show ?thesis
  proof (rule C5_get_absent_key_is_error)
    show "\<forall>bs \<in> set (levels (lsm \<lparr>lsm = Write (NewLSMTree []) 5 (Add (Add (NewBlock 5) ''a'' ''1'') ''c'' ''3''),
        wal = NewWAL [] 100, checkpoint = NewCheckpoint NoFile, mu = Unlocked,
        memTable = [(''m'', ''x'')], memTableSize = 2, maxMemTableSize = 33554432,
        flushChan = False, checkpointChan = False, lastCheckpointedWALTimestamp = 0,
        closed = False\<rparr>)). \<forall>b \<in> set bs. \<forall>v.
           readFromBlock (dataDir (lsm \<lparr>lsm = Write (NewLSMTree []) 5 (Add (Add (NewBlock 5) ''a'' ''1'') ''c'' ''3''),
        wal = NewWAL [] 100, checkpoint = NewCheckpoint NoFile, mu = Unlocked,
        memTable = [(''m'', ''x'')], memTableSize = 2, maxMemTableSize = 33554432,
        flushChan = False, checkpointChan = False, lastCheckpointedWALTimestamp = 0,
        closed = False\<rparr>)) (path b) ''b'' \<noteq> Inr v"
      unfolding Engine.simps block_a_c LSMTree.simps using rd by simp
  qed (simp_all add: block_a_c)
qed

text \<open>The block file that a flush of the memtable \<open>a \<mapsto> 1\<close> writes at time 5.\<close>

lemma block_a:
  "Write (NewLSMTree []) 5 (Add (NewBlock 5) ''a'' ''1'') =
     \<lparr>dataDir = [((0, ''5_'' @ replicate 64 (CHR ''0'') @ ''.blk''),
                  (5, fst (Encode (Add (NewBlock 5) ''a'' ''1''))))],
      levels = [[\<lparr>path = (0, ''5_'' @ replicate 64 (CHR ''0'') @ ''.blk''),
                  size_blk = 94, minKey = ''a'', maxKey = ''a'', createdAt = 5\<rparr>],
                [], [], [], [], [], []],
      compacting = False, compactionChan = False\<rparr>"
proof -
  have len: "length (fst (Encode (Add (NewBlock 5) ''a'' ''1''))) = 94"
    by (simp add: Encode_length NewBlock_def Add_def payload_of_def encode_key_def encode_pair_def)
  have name: "fmt_d 5 = ''5''"
    "hex_EncodeToString (BlockID (Header (Add (NewBlock 5) ''a'' ''1''))) = replicate 64 (CHR ''0'')"
    by (simp_all add: fmt_d_def decimal.simps digit_char_def NewBlock_def Add_def hex_zero)
  have st: "MinKey (Stats (Add (NewBlock 5) ''a'' ''1'')) = ''a''"
    "MaxKey (Stats (Add (NewBlock 5) ''a'' ''1'')) = ''a''"
    by (simp_all add: NewBlock_def Add_def)
  show ?thesis
    by (subst Write_first) (simp_all add: len name Stats_Encode st)
qed

lemma decode_a:
  "map_option pairs (Decode (NewBlock 0) (fst (Encode (Add (NewBlock 5) ''a'' ''1''))))
   = Some [(''a'', ''1'')]"
  using Decode_Encode_pairs [of "Add (NewBlock 5) ''a'' ''1''" "NewBlock 0"]
  by (simp add: NewBlock_def Add_def payload_of_def encode_pair_def)

lemma compact_single:
  assumes "fst p \<noteq> lv"
  shows "compact [(p, f)] now
           \<lparr>sourceLevel = sl, targetLevel = lv,
            blocks = [\<lparr>path = p, size_blk = sz, minKey = mn, maxKey = mx, createdAt = ct\<rparr>]\<rparr>
         = ([((lv, fmt_d now @ ''.blk''), (now, []))], sz, int (length mn) + 17, None)"
proof -
  have "p \<noteq> (lv, fmt_d now @ ''.blk'')"
    using assms by auto
  then show ?thesis
    by (simp add: compact_def Let_def)
qed

lemma readFromBlock_empty_file:
  "map_of dsk p = Some (mt, []) \<Longrightarrow> readFromBlock dsk p key = Inl BlockDecodeFailed"
  by (simp add: readFromBlock_def Decode_def ReadFull_def)

text \<open>
  C4. The claim: a compaction task merges the records of its source blocks into one
  output block at the target level and only then deletes the source files, so every key
  readable before is readable afterwards. The code: a block with the key \<open>a\<close> is
  written into level 0 and the tree reads \<open>a\<close> from it. \<open>compact\<close> on that block at
  time 9 returns no error and leaves one file in the data directory, the target file
  \<open>L1/9.blk\<close>, which is empty; the source file is gone, and reading \<open>a\<close> from the
  target file fails.
\<close>

theorem C4_compact_writes_no_record:
  "(let t = Write (NewLSMTree []) 5 (Add (NewBlock 5) ''a'' ''1'');
        r = compact (dataDir t) 9 \<lparr>sourceLevel = 0, targetLevel = 1, blocks = levels t ! 0\<rparr>
    in Read t ''a'' = Inr ''1'' \<and>
       r = ([((1, ''9.blk''), (9, []))], 94, 18, None) \<and>
       readFromBlock (fst r) (1, ''9.blk'') ''a'' = Inl BlockDecodeFailed)"
proof -
  let ?name = "''5_'' @ replicate 64 (CHR ''0'') @ ''.blk''"
  let ?enc = "fst (Encode (Add (NewBlock 5) ''a'' ''1''))"
  let ?dsk = "[((0::nat, ?name), (5::int, ?enc))]"
  let ?t = "Write (NewLSMTree []) 5 (Add (NewBlock 5) ''a'' ''1'')"
  let ?task = "\<lparr>sourceLevel = 0, targetLevel = 1, blocks = levels ?t ! 0\<rparr>"
  have m: "map_of ?dsk (0, ?name) = Some (5, ?enc)"
    by simp
  have d: "map_option pairs (Decode (NewBlock 0) (snd (5::int, ?enc))) = Some [(''a'', ''1'')]"
    by (simp only: snd_conv decode_a)
  have rd: "readFromBlock ?dsk (0, ?name) ''a'' = Inr ''1''"
    by (rule trans [OF readFromBlock_pairs [OF m d]]) simp
  have in_range: "keyInRange ''a'' ''a'' ''a''"
    by (simp add: keyInRange_def)
  have 1: "Read ?t ''a'' = Inr ''1''"
    unfolding block_a by (rule Read_single_hit [OF in_range rd])
  have nine: "fmt_d 9 = ''9''"
    by (simp add: fmt_d_def decimal.simps digit_char_def)
  have task: "?task = \<lparr>sourceLevel = 0, targetLevel = 1,
      blocks = [\<lparr>path = (0, ?name), size_blk = 94, minKey = ''a'', maxKey = ''a'',
                 createdAt = 5\<rparr>]\<rparr>"
    unfolding block_a by simp
  have dd: "dataDir ?t = ?dsk"
    by (simp only: block_a LSMTree.simps)
  have 2: "compact (dataDir ?t) 9 ?task = ([((1, ''9.blk''), (9, []))], 94, 18, None)"
    unfolding dd task
    by (subst compact_single) (simp_all add: nine)
  have 3: "readFromBlock (fst (compact (dataDir ?t) 9 ?task)) (1, ''9.blk'') ''a''
             = Inl BlockDecodeFailed"
    unfolding 2 by (rule readFromBlock_empty_file [where mt = 9]) simp
  from 1 2 3 show ?thesis
    unfolding Let_def by (intro conjI)
qed

end
